theory Spec2Isabelle
  imports Main "HOL-Library.Word" "HOL-Library.Sublist"
begin

section \<open>Locations in the chain hierarchy (common/types.go)\<close>

text \<open>
  A \<open>Location\<close> is a Go byte slice: the path from the root of the hierarchy to a chain.
  A \<open>nil\<close> slice and an empty slice are both the empty list here (Go's \<open>len\<close> and
  \<open>bytes.Equal\<close> do not tell them apart). \<open>log.Fatal\<close> ends the process; a function
  that can reach it returns \<open>Inl (Fatal msg)\<close>.
\<close>

type_synonym Location = "8 word list"

datatype fatal = Fatal string

definition PRIME_CTX :: int where "PRIME_CTX = 0"
definition REGION_CTX :: int where "REGION_CTX = 1"
definition ZONE_CTX :: int where "ZONE_CTX = 2"

definition NumRegionsInPrime :: int where "NumRegionsInPrime = 3"
definition NumZonesInRegion :: int where "NumZonesInRegion = 3"
definition HierarchyDepth :: int where "HierarchyDepth = 3"

definition Region :: "Location \<Rightarrow> int" where
  "Region loc = (if length loc \<ge> 1 then uint (loc ! 0) else -1)"

definition HasRegion :: "Location \<Rightarrow> bool" where
  "HasRegion loc = (Region loc \<ge> 0)"

definition Zone :: "Location \<Rightarrow> int" where
  "Zone loc = (if length loc \<ge> 2 then uint (loc ! 1) else -1)"

definition HasZone :: "Location \<Rightarrow> bool" where
  "HasZone loc = (Zone loc \<ge> 0)"

text \<open>\<open>AssertValid\<close> returns nothing; \<open>Some\<close> is the fatal exit it takes, first match first.\<close>

definition AssertValid :: "Location \<Rightarrow> fatal option" where
  "AssertValid loc =
     (if \<not> HasRegion loc \<and> HasZone loc
        then Some (Fatal ''cannot specify zone without also specifying region.'')
      else if Region loc \<ge> NumRegionsInPrime
        then Some (Fatal ''region index is not valid.'')
      else if Zone loc \<ge> NumZonesInRegion
        then Some (Fatal ''zone index is not valid.'')
      else None)"

definition Context :: "Location \<Rightarrow> fatal + int" where
  "Context loc =
     (case AssertValid loc of
        Some f \<Rightarrow> Inl f
      | None \<Rightarrow>
          if Zone loc \<ge> 0 then Inr ZONE_CTX
          else if Region loc \<ge> 0 then Inr REGION_CTX
          else Inr PRIME_CTX)"

definition DomLocation :: "Location \<Rightarrow> Location" where
  "DomLocation loc = (if length loc < 1 then [] else take (length loc - 1) loc)"

text \<open>
  \<open>SubInSlice\<close> logs a line and returns \<open>nil\<close> when the slice is not deeper than the
  receiver; otherwise it appends one coordinate of the slice.
\<close>

definition SubInSlice :: "Location \<Rightarrow> Location \<Rightarrow> Location" where
  "SubInSlice loc slc =
     (if length slc \<le> length loc then []
      else loc @ [slc ! (length loc)])"

definition Equal :: "Location \<Rightarrow> Location \<Rightarrow> bool" where
  "Equal loc cmp = (loc = cmp)"

definition InSameSliceAs :: "Location \<Rightarrow> Location \<Rightarrow> bool" where
  "InSameSliceAs loc cmp =
     (let shorter = (if length loc > length cmp then cmp else loc);
          longer = (if length loc > length cmp then loc else cmp)
      in Equal shorter (take (length shorter) longer))"

text \<open>The loop of \<open>CommonDom\<close>: index \<open>i\<close>, the prefix collected so far in \<open>common\<close>.\<close>

function CommonDom_loop :: "Location \<Rightarrow> Location \<Rightarrow> nat \<Rightarrow> nat \<Rightarrow> Location \<Rightarrow> Location" where
  "CommonDom_loop loc cmp shorterLen i common =
     (if i < shorterLen then
        (if loc ! i = cmp ! i
           then CommonDom_loop loc cmp shorterLen (i + 1) (common @ [loc ! i])
         else common)
      else common)"
  by pat_completeness auto
termination
  by (relation "measure (\<lambda>(loc, cmp, shorterLen, i, common). shorterLen - i)") auto

declare CommonDom_loop.simps [simp del]

definition CommonDom :: "Location \<Rightarrow> Location \<Rightarrow> Location" where
  "CommonDom loc cmp =
     (let shorterLen = (if length loc > length cmp then length cmp else length loc)
      in CommonDom_loop loc cmp shorterLen 0 [])"

section \<open>Addresses and their shard (common/types.go)\<close>

text \<open>
  An \<open>Address\<close> is a Go array of \<open>AddressLength\<close> bytes, so \<open>a[0]\<close> always exists;
  here it is a byte list, and the theorems about addresses ask for that length.
\<close>

type_synonym Address = "8 word list"

definition AddressLength :: nat where "AddressLength = 20"

definition SetBytes :: "Address \<Rightarrow> 8 word list \<Rightarrow> Address" where
  "SetBytes a b =
     (let b' = (if length b > length a then drop (length b - AddressLength) b else b)
      in take (AddressLength - length b') a @ b')"

definition BytesToAddress :: "8 word list \<Rightarrow> Address" where
  "BytesToAddress b = SetBytes (replicate AddressLength 0) b"

definition ZeroAddr :: Address where
  "ZeroAddr = BytesToAddress [0]"

record addrPrefixRange =
  lo :: "8 word"
  hi :: "8 word"

definition NewRange :: "8 word \<Rightarrow> 8 word \<Rightarrow> addrPrefixRange" where
  "NewRange l h = \<lparr>lo = l, hi = h\<rparr>"

text \<open>The table that \<open>init()\<close> fills, one assignment per entry.\<close>

definition locationToPrefixRange :: "string \<rightharpoonup> addrPrefixRange" where
  "locationToPrefixRange =
     (Map.empty
        (''prime'' \<mapsto> NewRange 0 9,
         ''cyprus'' \<mapsto> NewRange 10 19,
         ''cyprus1'' \<mapsto> NewRange 20 29,
         ''cyprus2'' \<mapsto> NewRange 30 39,
         ''cyprus3'' \<mapsto> NewRange 40 49,
         ''paxos'' \<mapsto> NewRange 50 59,
         ''paxos1'' \<mapsto> NewRange 60 69,
         ''paxos2'' \<mapsto> NewRange 70 79,
         ''paxos3'' \<mapsto> NewRange 80 89,
         ''hydra'' \<mapsto> NewRange 90 99,
         ''hydra1'' \<mapsto> NewRange 100 109,
         ''hydra2'' \<mapsto> NewRange 110 119,
         ''hydra3'' \<mapsto> NewRange 120 129))"

text \<open>\<open>strconv.Itoa\<close>: the decimal digits of an \<open>int\<close>, with a sign when negative.\<close>

fun digits :: "nat \<Rightarrow> string" where
  "digits n =
     (if n < 10 then [''0123456789'' ! n]
      else digits (n div 10) @ [''0123456789'' ! (n mod 10)])"

declare digits.simps [simp del]

definition Itoa :: "int \<Rightarrow> string" where
  "Itoa i = (if i < 0 then CHR ''-'' # digits (nat (- i)) else digits (nat i))"

definition Name :: "Location \<Rightarrow> fatal + string" where
  "Name loc =
     (let regionName =
            (if Region loc = 0 then ''cyprus''
             else if Region loc = 1 then ''paxos''
             else if Region loc = 2 then ''hydra''
             else ''unknownregion'');
          zoneNum = Itoa (Zone loc + 1)
      in case Context loc of
           Inl f \<Rightarrow> Inl f
         | Inr ctx \<Rightarrow>
             if ctx = PRIME_CTX then Inr ''prime''
             else if ctx = REGION_CTX then Inr regionName
             else if ctx = ZONE_CTX then Inr (regionName @ zoneNum)
             else Inr ''invalid-location'')"

definition ContainsAddress :: "Location \<Rightarrow> Address \<Rightarrow> fatal + bool" where
  "ContainsAddress l a =
     (let pfx = a ! 0
      in case Name l of
           Inl f \<Rightarrow> Inl f
         | Inr n \<Rightarrow>
             (case locationToPrefixRange n of
                None \<Rightarrow> Inl (Fatal ''unable to get address prefix range for location'')
              | Some prefixRange \<Rightarrow> Inr (pfx \<ge> lo prefixRange \<and> pfx \<le> hi prefixRange)))"

definition IsInChainScope :: "Location \<Rightarrow> Address \<Rightarrow> fatal + bool" where
  "IsInChainScope NodeLocation a =
     (if a = ZeroAddr then Inr True else ContainsAddress NodeLocation a)"

text \<open>
  Go's \<open>%\<close> truncates towards zero: the remainder has the sign of the dividend.
  \<open>byte(i)\<close> keeps the low eight bits.
\<close>

definition go_rem :: "int \<Rightarrow> int \<Rightarrow> int" where
  "go_rem a b = sgn a * (\<bar>a\<bar> mod \<bar>b\<bar>)"

definition byte :: "int \<Rightarrow> 8 word" where
  "byte i = word_of_int i"

text \<open>
  \<open>Address.Location()\<close>. The counted loops run over their index lists; \<open>Inr None\<close> is
  the \<open>nil\<close> result, \<open>Inl\<close> a fatal exit inside \<open>ContainsAddress\<close>. \<open>Location_zones\<close> is
  the inner loop over \<open>z\<close>, \<open>Location_regions\<close> the outer loop over \<open>r\<close> with the flag
  \<open>primeChecked\<close>.
\<close>

fun Location_zones ::
  "Address \<Rightarrow> int \<Rightarrow> int \<Rightarrow> int \<Rightarrow> int \<Rightarrow> int list \<Rightarrow> fatal + Location option" where
  "Location_zones a R Z D r [] = Inr None"
| "Location_zones a R Z D r (z # zs) =
     (let l = [byte (go_rem (r + R) D), byte (go_rem (z + Z) D)]
      in case ContainsAddress l a of
           Inl f \<Rightarrow> Inl f
         | Inr c \<Rightarrow> if c then Inr (Some l) else Location_zones a R Z D r zs)"

fun Location_regions ::
  "Address \<Rightarrow> int \<Rightarrow> int \<Rightarrow> int \<Rightarrow> bool \<Rightarrow> int list \<Rightarrow> fatal + Location option" where
  "Location_regions a R Z D primeChecked [] = Inr None"
| "Location_regions a R Z D primeChecked (r # rs) =
     (case Location_zones a R Z D r (map int [0..<nat NumZonesInRegion]) of
        Inl f \<Rightarrow> Inl f
      | Inr (Some l) \<Rightarrow> Inr (Some l)
      | Inr None \<Rightarrow>
          (let l = [byte (go_rem (r + R) D)]
           in case ContainsAddress l a of
                Inl f \<Rightarrow> Inl f
              | Inr c \<Rightarrow>
                  if c then Inr (Some l)
                  else if \<not> primeChecked then
                    (case ContainsAddress [] a of
                       Inl f \<Rightarrow> Inl f
                     | Inr c' \<Rightarrow>
                         if c' then Inr (Some [])
                         else Location_regions a R Z D True rs)
                  else Location_regions a R Z D primeChecked rs))"

declare Location_regions.simps [simp del]

definition Address_Location :: "Location \<Rightarrow> Address \<Rightarrow> fatal + Location option" where
  "Address_Location NodeLocation a =
     (let R = (if HasRegion NodeLocation then Region NodeLocation else 0);
          Z = (if HasZone NodeLocation then Zone NodeLocation else 0);
          D = HierarchyDepth
      in Location_regions a R Z D False (map int [0..<nat NumRegionsInPrime]))"

section \<open>Gas limit adjustment (core/block_validator.go)\<close>

text \<open>
  \<open>params.GasLimitBoundDivisor\<close> and \<open>params.MinGasLimit\<close> are constants of package
  \<open>params\<close>; they are the two fields of the record the function takes. All arithmetic is
  \<open>uint64\<close>: \<open>+\<close> and \<open>-\<close> wrap around.
\<close>

record params =
  GasLimitBoundDivisor :: "64 word"
  MinGasLimit :: "64 word"

definition CalcGasLimit :: "params \<Rightarrow> 64 word \<Rightarrow> 64 word \<Rightarrow> 64 word" where
  "CalcGasLimit p parentGasLimit desiredLimit0 =
     (let delta = parentGasLimit div GasLimitBoundDivisor p - 1;
          limit = parentGasLimit;
          desiredLimit = (if desiredLimit0 < MinGasLimit p then MinGasLimit p else desiredLimit0)
      in if limit < desiredLimit then
           (let limit = parentGasLimit + delta
            in if limit > desiredLimit then desiredLimit else limit)
         else if limit > desiredLimit then
           (let limit = parentGasLimit - delta
            in if limit < desiredLimit then desiredLimit else limit)
         else limit)"

section \<open>Block validation (core/block_validator.go)\<close>

text \<open>
  Package \<open>types\<close>, the header chain, the consensus engine and the state database are
  collaborators of the validator. A header and a block are records of what their
  accessor methods return; everything else the validator calls or reads is a field of
  \<open>Env\<close>: the global \<open>common.NodeLocation\<close>, the availability oracle, the engine's
  \<open>VerifyUncles\<close>, the root computation \<open>types.DeriveSha\<close> (one field per element type
  it is applied to), \<open>types.CalcUncleHash\<close>, \<open>types.CreateBloom\<close>, the constants
  \<open>types.EmptyRootHash\<close> and \<open>types.ReceiptStatusSuccessful\<close>,
  \<open>statedb.IntermediateRoot\<close> and \<open>CollectEtxRollup\<close>.
\<close>

type_synonym Hash = "8 word list"
type_synonym Bloom = "8 word list"

record Header =
  UncleHash :: Hash
  TxHash :: Hash
  EtxHash :: Hash
  EtxRollupHash :: Hash
  ManifestHash :: "int \<Rightarrow> Hash"
  ReceiptHash :: Hash
  Bloom :: Bloom
  Root :: Hash
  Number :: int

record 'tx Block =
  Header :: Header
  Hash :: Hash
  NumberU64 :: "64 word"
  ParentHash :: Hash
  GasUsed :: "64 word"
  Uncles :: "Header list"
  Transactions :: "'tx list"
  ExtTransactions :: "'tx list"
  SubManifest :: "Hash list"

record 'tx Receipt =
  Status :: "64 word"
  Etxs :: "'tx list"

record ('tx, 'st, 'e) Env =
  NodeLocation :: Location
  HasBlockAndState :: "Hash \<Rightarrow> 64 word \<Rightarrow> bool"
  HasBlock :: "Hash \<Rightarrow> 64 word \<Rightarrow> bool"
  VerifyUncles :: "'tx Block \<Rightarrow> 'e option"
  CalcUncleHash :: "Header list \<Rightarrow> Hash"
  DeriveSha_Transactions :: "'tx list \<Rightarrow> Hash"
  DeriveSha_BlockManifest :: "Hash list \<Rightarrow> Hash"
  DeriveSha_Receipts :: "'tx Receipt list \<Rightarrow> Hash"
  EmptyRootHash :: Hash
  ReceiptStatusSuccessful :: "64 word"
  CreateBloom :: "'tx Receipt list \<Rightarrow> Bloom"
  IsEIP158 :: "int \<Rightarrow> bool"
  IntermediateRoot :: "'st \<Rightarrow> bool \<Rightarrow> Hash \<times> 'e option"
  CollectEtxRollup :: "'tx Block \<Rightarrow> 'tx list \<times> 'e option"

text \<open>
  The errors the two validators return. The four sentinels are the package-level error
  values; \<open>Propagated\<close> hands on, unchanged, the error of a collaborator (the engine's
  uncle verification, the state database); each \<open>fmt.Errorf\<close> is a constructor of its
  own carrying the two values of its message.
\<close>

datatype 'e error =
    ErrKnownBlock
  | ErrBadSubManifest
  | ErrUnknownAncestor
  | ErrPrunedAncestor
  | Propagated 'e
  | UncleRootHashMismatch Hash Hash
  | TransactionRootHashMismatch Hash Hash
  | ExternalTransactionRootHashMismatch Hash Hash
  | InvalidGasUsed "64 word" "64 word"
  | InvalidBloom Bloom Bloom
  | InvalidReceiptRootHash Hash Hash
  | InvalidMerkleRoot Hash Hash
  | InvalidEtxHash Hash Hash
  | UnableToGetEtxRollup
  | InvalidEtxRollupHash Hash Hash

text \<open>
  \<open>ValidateBody\<close>: \<open>Inl\<close> is the fatal exit of \<open>NodeLocation.Context()\<close>, \<open>Inr None\<close> the
  \<open>nil\<close> error, \<open>Inr (Some e)\<close> the error returned. \<open>NumberU64() - 1\<close> is \<open>uint64\<close>
  subtraction.
\<close>

definition ValidateBody :: "('tx, 'st, 'e) Env \<Rightarrow> 'tx Block \<Rightarrow> fatal + 'e error option" where
  "ValidateBody v block =
     (case Context (NodeLocation v) of
        Inl f \<Rightarrow> Inl f
      | Inr nodeCtx \<Rightarrow> Inr
         (if HasBlockAndState v (Hash block) (NumberU64 block) then Some ErrKnownBlock
          else
            (let header = Header block
             in case VerifyUncles v block of
                  Some err \<Rightarrow> Some (Propagated err)
                | None \<Rightarrow>
                    if CalcUncleHash v (Uncles block) \<noteq> UncleHash header
                      then Some (UncleRootHashMismatch
                                   (CalcUncleHash v (Uncles block)) (UncleHash header))
                    else if DeriveSha_Transactions v (Transactions block) \<noteq> TxHash header
                      then Some (TransactionRootHashMismatch
                                   (DeriveSha_Transactions v (Transactions block)) (TxHash header))
                    else if DeriveSha_Transactions v (ExtTransactions block) \<noteq> EtxHash header
                      then Some (ExternalTransactionRootHashMismatch
                                   (DeriveSha_Transactions v (ExtTransactions block)) (EtxHash header))
                    else if nodeCtx < ZONE_CTX \<and>
                            (let subManifestHash = DeriveSha_BlockManifest v (SubManifest block)
                             in subManifestHash = EmptyRootHash v \<or>
                                subManifestHash \<noteq> ManifestHash header (nodeCtx + 1))
                      then Some ErrBadSubManifest
                    else if \<not> HasBlockAndState v (ParentHash block) (NumberU64 block - 1)
                      then (if \<not> HasBlock v (ParentHash block) (NumberU64 block - 1)
                              then Some ErrUnknownAncestor
                            else Some ErrPrunedAncestor)
                    else None)))"

text \<open>
  The path condition of the last check of \<open>ValidateBody\<close>: the block is not known, the
  engine accepts the uncles, the three roots match, and the sub-manifest check passes or
  is skipped.
\<close>

abbreviation ancestor_check_reached :: "('tx, 'st, 'e) Env \<Rightarrow> 'tx Block \<Rightarrow> int \<Rightarrow> bool" where
  "ancestor_check_reached v block nodeCtx \<equiv>
     \<not> HasBlockAndState v (Hash block) (NumberU64 block) \<and>
     VerifyUncles v block = None \<and>
     CalcUncleHash v (Uncles block) = UncleHash (Header block) \<and>
     DeriveSha_Transactions v (Transactions block) = TxHash (Header block) \<and>
     DeriveSha_Transactions v (ExtTransactions block) = EtxHash (Header block) \<and>
     \<not> (nodeCtx < ZONE_CTX \<and>
        (DeriveSha_BlockManifest v (SubManifest block) = EmptyRootHash v \<or>
         DeriveSha_BlockManifest v (SubManifest block)
           \<noteq> ManifestHash (Header block) (nodeCtx + 1)))"

text \<open>The two nested loops of \<open>ValidateState\<close> that append the emitted transactions.\<close>

fun append_etxs :: "'tx list \<Rightarrow> 'tx list \<Rightarrow> 'tx list" where
  "append_etxs emittedEtxs [] = emittedEtxs"
| "append_etxs emittedEtxs (etx # etxs) = append_etxs (emittedEtxs @ [etx]) etxs"

fun collect_etxs :: "64 word \<Rightarrow> 'tx list \<Rightarrow> 'tx Receipt list \<Rightarrow> 'tx list" where
  "collect_etxs successful emittedEtxs [] = emittedEtxs"
| "collect_etxs successful emittedEtxs (receipt # receipts) =
     collect_etxs successful
       (if Status receipt = successful then append_etxs emittedEtxs (Etxs receipt)
        else emittedEtxs)
       receipts"

definition ValidateState ::
  "('tx, 'st, 'e) Env \<Rightarrow> 'tx Block \<Rightarrow> 'st \<Rightarrow> 'tx Receipt list \<Rightarrow> 64 word \<Rightarrow> 'e error option" where
  "ValidateState v block statedb receipts usedGas =
     (let header = Header block
      in if GasUsed block \<noteq> usedGas then Some (InvalidGasUsed (GasUsed block) usedGas)
         else
           (let rbloom = CreateBloom v receipts
            in if rbloom \<noteq> Bloom header then Some (InvalidBloom (Bloom header) rbloom)
               else
                 (let receiptSha = DeriveSha_Receipts v receipts
                  in if receiptSha \<noteq> ReceiptHash header
                       then Some (InvalidReceiptRootHash (ReceiptHash header) receiptSha)
                     else
                       (case IntermediateRoot v statedb (IsEIP158 v (Number header)) of
                          (root, err) \<Rightarrow>
                            if Root header \<noteq> root \<or> err \<noteq> None then
                              (case err of
                                 Some e \<Rightarrow> Some (Propagated e)
                               | None \<Rightarrow> Some (InvalidMerkleRoot (Root header) root))
                            else
                              (let emittedEtxs =
                                     collect_etxs (ReceiptStatusSuccessful v) [] receipts;
                                   etxHash = DeriveSha_Transactions v emittedEtxs
                               in if etxHash \<noteq> EtxHash header
                                    then Some (InvalidEtxHash (EtxHash header) etxHash)
                                  else
                                    (case CollectEtxRollup v block of
                                       (etxRollup, err') \<Rightarrow>
                                         if err' \<noteq> None then Some UnableToGetEtxRollup
                                         else
                                           (let etxRollupHash =
                                                  DeriveSha_Transactions v etxRollup
                                            in if etxRollupHash \<noteq> EtxRollupHash header
                                                 then Some (InvalidEtxRollupHash
                                                              (EtxRollupHash header) etxRollupHash)
                                               else None)))))))"

section \<open>An example chain\<close>

text \<open>
  A small concrete environment, for evaluating the validators: a region node, toy root
  functions (the empty list has the empty root), a parent \<open>[9]\<close> with header and state,
  a block \<open>[8]\<close> known by header only.
\<close>

definition ex_env :: "(nat, unit, string) Env" where
  "ex_env =
     \<lparr>NodeLocation = [0],
      HasBlockAndState = (\<lambda>h n. h = [9]),
      HasBlock = (\<lambda>h n. h = [9] \<or> h = [8]),
      VerifyUncles = (\<lambda>b. if length (Uncles b) > 2 then Some ''too many uncles'' else None),
      CalcUncleHash = (\<lambda>us. [of_nat (length us)]),
      DeriveSha_Transactions = (\<lambda>txs. map of_nat txs),
      DeriveSha_BlockManifest = (\<lambda>hs. concat hs),
      DeriveSha_Receipts = (\<lambda>rs. [of_nat (length rs)]),
      EmptyRootHash = [],
      ReceiptStatusSuccessful = 1,
      CreateBloom = (\<lambda>rs. []),
      IsEIP158 = (\<lambda>n. True),
      IntermediateRoot = (\<lambda>st b. ([7], None)),
      CollectEtxRollup = (\<lambda>b. ([], None))\<rparr>"

definition ex_header :: Header where
  "ex_header =
     \<lparr>UncleHash = [0], TxHash = [1, 2], EtxHash = [3], EtxRollupHash = [],
      ManifestHash = (\<lambda>ctx. if ctx = 2 then [5, 6] else []),
      ReceiptHash = [2], Bloom = [], Root = [7], Number = 10\<rparr>"

definition ex_block :: "nat Block" where
  "ex_block =
     \<lparr>Header = ex_header, Hash = [4], NumberU64 = 10, ParentHash = [9], GasUsed = 21000,
      Uncles = [], Transactions = [1, 2], ExtTransactions = [3],
      SubManifest = [[5], [6]]\<rparr>"

definition ex_receipts :: "nat Receipt list" where
  "ex_receipts = [\<lparr>Status = 1, Etxs = [3]\<rparr>, \<lparr>Status = 0, Etxs = [4]\<rparr>]"

section \<open>Properties of the location algebra\<close>

lemma coord_cases:
  fixes c :: "8 word"
  assumes "uint c < 3"
  shows "c = 0 \<or> c = 1 \<or> c = 2"
proof -
  have "0 \<le> uint c" by simp
  with assms have "uint c = 0 \<or> uint c = 1 \<or> uint c = 2" by arith
  then show ?thesis
    by (auto simp: word_uint_eq_iff)
qed

lemma lcp_drop_step:
  assumes "i < length xs" "i < length ys"
  shows "longest_common_prefix (drop i xs) (drop i ys) =
           (if xs ! i = ys ! i
              then xs ! i # longest_common_prefix (drop (Suc i) xs) (drop (Suc i) ys)
            else [])"
proof -
  have "drop i xs = xs ! i # drop (Suc i) xs" "drop i ys = ys ! i # drop (Suc i) ys"
    using assms by (simp_all add: Cons_nth_drop_Suc)
  then show ?thesis by simp
qed

lemma lcp_drop_end:
  assumes "length xs \<le> i \<or> length ys \<le> i"
  shows "longest_common_prefix (drop i xs) (drop i ys) = []"
  using assms by auto

lemma CommonDom_loop_lcp:
  assumes "n = min (length loc) (length cmp)"
  shows "CommonDom_loop loc cmp n i common =
           common @ longest_common_prefix (drop i loc) (drop i cmp)"
  using assms
proof (induction loc cmp n i common rule: CommonDom_loop.induct)
  case (1 loc cmp shorterLen i common)
  show ?case
  proof (cases "i < shorterLen")
    case True
    then have il: "i < length loc" "i < length cmp" using "1.prems" by simp_all
    show ?thesis
    proof (cases "loc ! i = cmp ! i")
      case eq: True
      have "CommonDom_loop loc cmp shorterLen i common =
              CommonDom_loop loc cmp shorterLen (i + 1) (common @ [loc ! i])"
        using True eq by (subst CommonDom_loop.simps) simp
      also have "\<dots> = (common @ [loc ! i]) @
                        longest_common_prefix (drop (i + 1) loc) (drop (i + 1) cmp)"
        using "1.IH" [OF True eq "1.prems"] .
      also have "\<dots> = common @ longest_common_prefix (drop i loc) (drop i cmp)"
        using eq by (simp add: lcp_drop_step [OF il])
      finally show ?thesis .
    next
      case neq: False
      have "CommonDom_loop loc cmp shorterLen i common = common"
        using True neq by (subst CommonDom_loop.simps) simp
      then show ?thesis using neq by (simp add: lcp_drop_step [OF il])
    qed
  next
    case False
    then have "length loc \<le> i \<or> length cmp \<le> i" using "1.prems" by auto
    then have "longest_common_prefix (drop i loc) (drop i cmp) = []"
      by (rule lcp_drop_end)
    moreover have "CommonDom_loop loc cmp shorterLen i common = common"
      using False by (subst CommonDom_loop.simps) simp
    ultimately show ?thesis by simp
  qed
qed

lemma CommonDom_lcp: "CommonDom loc cmp = longest_common_prefix loc cmp"
proof -
  have "(if length loc > length cmp then length cmp else length loc) =
          min (length loc) (length cmp)" by simp
  then show ?thesis
    unfolding CommonDom_def Let_def
    by (simp add: CommonDom_loop_lcp)
qed

lemma InSameSliceAs_prefix: "InSameSliceAs a b \<longleftrightarrow> prefix a b \<or> prefix b a"
proof (cases "length a > length b")
  case True
  then have "\<not> prefix a b" by (auto dest: prefix_length_le)
  moreover have "InSameSliceAs a b \<longleftrightarrow> b = take (length b) a"
    using True by (simp add: InSameSliceAs_def Equal_def)
  moreover have "b = take (length b) a \<longleftrightarrow> prefix b a"
    by (metis take_is_prefix prefix_def append_eq_conv_conj)
  ultimately show ?thesis by simp
next
  case False
  have "InSameSliceAs a b \<longleftrightarrow> a = take (length a) b"
    using False by (simp add: InSameSliceAs_def Equal_def)
  moreover have "a = take (length a) b \<longleftrightarrow> prefix a b"
    by (metis take_is_prefix prefix_def append_eq_conv_conj)
  moreover have "prefix b a \<longrightarrow> prefix a b"
    using False by (metis prefix_length_le le_antisym linorder_not_less prefix_order.order_refl
        append_eq_conv_conj prefix_def take_all)
  ultimately show ?thesis by auto
qed

text \<open>
  Claim C9. \<open>InSameSliceAs\<close> is reflexive and symmetric and holds exactly when one
  location is a prefix of the other. \<open>CommonDom a b\<close> is the longest common prefix of
  \<open>a\<close> and \<open>b\<close>: a prefix of both that every common prefix is a prefix of; so it is
  no longer than the shorter location, and it is the shorter location exactly when
  that one is a prefix of the longer. This holds for all byte lists, valid locations
  among them.
\<close>

theorem same_slice_and_common_dom:
  "InSameSliceAs a a \<and>
   (InSameSliceAs a b \<longleftrightarrow> InSameSliceAs b a) \<and>
   (InSameSliceAs a b \<longleftrightarrow> prefix a b \<or> prefix b a) \<and>
   prefix (CommonDom a b) a \<and> prefix (CommonDom a b) b \<and>
   (\<forall>p. prefix p a \<and> prefix p b \<longrightarrow> prefix p (CommonDom a b)) \<and>
   length (CommonDom a b) \<le> min (length a) (length b) \<and>
   (length a \<le> length b \<longrightarrow> (CommonDom a b = a \<longleftrightarrow> prefix a b)) \<and>
   (length b \<le> length a \<longrightarrow> (CommonDom a b = b \<longleftrightarrow> prefix b a))"
proof -
  have p1: "prefix (CommonDom a b) a" and p2: "prefix (CommonDom a b) b"
    by (simp_all add: CommonDom_lcp longest_common_prefix_prefix1 longest_common_prefix_prefix2)
  have mx: "\<And>p. prefix p a \<Longrightarrow> prefix p b \<Longrightarrow> prefix p (CommonDom a b)"
    by (simp add: CommonDom_lcp longest_common_prefix_max_prefix)
  have len: "length (CommonDom a b) \<le> min (length a) (length b)"
    using p1 p2 by (simp add: prefix_length_le)
  have ea: "CommonDom a b = a \<longleftrightarrow> prefix a b"
    using p1 p2 mx [of a] by (metis prefix_order.order_refl prefix_order.antisym)
  have eb: "CommonDom a b = b \<longleftrightarrow> prefix b a"
    using p1 p2 mx [of b] by (metis prefix_order.order_refl prefix_order.antisym)
  show ?thesis
    using p1 p2 mx len ea eb by (auto simp: InSameSliceAs_prefix)
qed

theorem same_slice_and_common_dom_witness:
  "length [0 :: 8 word] \<le> length [0, 1 :: 8 word] \<and> prefix [0] [0, 1 :: 8 word] \<and>
   InSameSliceAs [0] [0, 1] \<and> InSameSliceAs [0, 1] [0] \<and> CommonDom [0] [0, 1] = [0]"
  using same_slice_and_common_dom [of "[0]" "[0, 1]"]
  by auto


text \<open>
  Claim C7, as amended. \<open>SubInSlice loc slc\<close> is non-empty exactly when \<open>slc\<close> is
  longer than \<open>loc\<close>, whether or not \<open>loc\<close> is a prefix of \<open>slc\<close>. When it is, the
  result has length \<open>length loc + 1\<close>, starts with \<open>loc\<close> and ends with the coordinate
  of \<open>slc\<close> at position \<open>length loc\<close>; if moreover \<open>slc\<close> strictly extends \<open>loc\<close>, the
  result is a prefix of \<open>slc\<close>. Otherwise the result is empty.
\<close>

theorem SubInSlice_deeper:
  "(SubInSlice loc slc \<noteq> [] \<longleftrightarrow> length loc < length slc) \<and>
   (length loc < length slc \<longrightarrow>
      length (SubInSlice loc slc) = length loc + 1 \<and>
      take (length loc) (SubInSlice loc slc) = loc \<and>
      SubInSlice loc slc ! (length loc) = slc ! (length loc)) \<and>
   (strict_prefix loc slc \<longrightarrow> prefix (SubInSlice loc slc) slc) \<and>
   (\<not> length loc < length slc \<longrightarrow> SubInSlice loc slc = [])"
proof -
  have "prefix (loc @ [slc ! length loc]) slc" if "strict_prefix loc slc"
  proof -
    from that obtain ys where ys: "slc = loc @ ys" "ys \<noteq> []"
      by (auto simp: strict_prefix_def prefix_def)
    then obtain z zs where "ys = z # zs" by (cases ys) auto
    with ys show ?thesis by simp
  qed
  moreover have "length loc < length slc" if "strict_prefix loc slc"
    using that by (metis prefix_length_less)
  ultimately show ?thesis
    by (auto simp: SubInSlice_def)
qed

theorem SubInSlice_deeper_witness:
  "length [0 :: 8 word] < length [0, 1 :: 8 word] \<and> strict_prefix [0] [0, 1 :: 8 word] \<and>
   SubInSlice [0] [0, 1] = [0, 1] \<and> \<not> length [0, 1 :: 8 word] < length [0 :: 8 word] \<and>
   SubInSlice [0, 1] [0] = []"
  using SubInSlice_deeper [of "[0]" "[0, 1]"] SubInSlice_deeper [of "[0, 1]" "[0]"]
  by (simp add: SubInSlice_def)

text \<open>
  Claim C7 as stated fails: \<open>[0, 2]\<close> is deeper than \<open>[1]\<close> but does not extend it, and
  \<open>SubInSlice\<close> still returns a location.
\<close>

theorem SubInSlice_not_prefix_counterexample:
  "SubInSlice [1] [0, 2] = [1, 2] \<and> SubInSlice [1] [0, 2] \<noteq> [] \<and>
   \<not> strict_prefix [1] [0, 2 :: 8 word] \<and> \<not> prefix [1] [0, 2 :: 8 word]"
  by (simp add: SubInSlice_def)

text \<open>
  Claim C8. A location of length 0, 1 or 2 whose coordinates are all below the branching
  factor 3 has context \<open>PRIME_CTX\<close>, \<open>REGION_CTX\<close> or \<open>ZONE_CTX\<close> according to its
  length, with no fatal exit; and \<open>DomLocation\<close> of a location of length 2 is the region
  location made of its first coordinate.
\<close>

theorem tier_matches_length:
  assumes "length loc \<le> 2" and "\<forall>c \<in> set loc. uint c < NumRegionsInPrime"
  shows "(length loc = 0 \<longrightarrow> Context loc = Inr PRIME_CTX) \<and>
         (length loc = 1 \<longrightarrow> Context loc = Inr REGION_CTX) \<and>
         (length loc = 2 \<longrightarrow> Context loc = Inr ZONE_CTX \<and>
            DomLocation loc = [loc ! 0] \<and> Context (DomLocation loc) = Inr REGION_CTX)"
proof -
  have c0: "Context [] = Inr PRIME_CTX"
    by (simp add: Context_def AssertValid_def HasRegion_def HasZone_def Region_def Zone_def
        NumRegionsInPrime_def NumZonesInRegion_def)
  have c1: "Context [x] = Inr REGION_CTX" if "uint x < 3" for x
    using that
    by (simp add: Context_def AssertValid_def HasRegion_def HasZone_def Region_def Zone_def
        NumRegionsInPrime_def NumZonesInRegion_def)
  have c2: "Context [x, y] = Inr ZONE_CTX" if "uint x < 3" "uint y < 3" for x y
    using that
    by (simp add: Context_def AssertValid_def HasRegion_def HasZone_def Region_def Zone_def
        NumRegionsInPrime_def NumZonesInRegion_def)
  have l0: "length loc = 0 \<longrightarrow> Context loc = Inr PRIME_CTX"
    using c0 by simp
  have l1: "length loc = 1 \<longrightarrow> Context loc = Inr REGION_CTX"
  proof
    assume "length loc = 1"
    then obtain x where "loc = [x]" by (auto simp: length_Suc_conv)
    then show "Context loc = Inr REGION_CTX"
      using assms(2) c1 by (simp add: NumRegionsInPrime_def)
  qed
  have l2: "length loc = 2 \<longrightarrow> Context loc = Inr ZONE_CTX \<and>
            DomLocation loc = [loc ! 0] \<and> Context (DomLocation loc) = Inr REGION_CTX"
  proof
    assume "length loc = 2"
    then obtain x y where xy: "loc = [x, y]"
      by (auto simp: length_Suc_conv numeral_2_eq_2)
    then have "uint x < 3" "uint y < 3" using assms(2) by (simp_all add: NumRegionsInPrime_def)
    then show "Context loc = Inr ZONE_CTX \<and>
            DomLocation loc = [loc ! 0] \<and> Context (DomLocation loc) = Inr REGION_CTX"
      using xy c1 c2 by (simp add: DomLocation_def)
  qed
  from l0 l1 l2 show ?thesis by blast
qed

theorem tier_matches_length_witness:
  "length [2, 1 :: 8 word] \<le> 2 \<and>
   uint (2 :: 8 word) < NumRegionsInPrime \<and> uint (1 :: 8 word) < NumRegionsInPrime \<and>
   length [2, 1 :: 8 word] = 2 \<and>
   Context [2, 1] = Inr ZONE_CTX \<and> DomLocation [2, 1] = [2] \<and>
   Context (DomLocation [2, 1]) = Inr REGION_CTX"
proof -
  have h1: "length [2, 1 :: 8 word] \<le> 2" by simp
  have h2: "\<forall>c \<in> set [2, 1 :: 8 word]. uint c < NumRegionsInPrime"
    by (simp add: NumRegionsInPrime_def)
  show ?thesis
    using h1 h2 tier_matches_length [OF h1 h2] by auto
qed

section \<open>Properties of address resolution\<close>

lemmas Name_unfold =
  Name_def Context_def AssertValid_def HasRegion_def HasZone_def Region_def Zone_def
  NumRegionsInPrime_def NumZonesInRegion_def PRIME_CTX_def REGION_CTX_def ZONE_CTX_def
  Itoa_def digits.simps

lemma Name_values:
  "Name [] = Inr ''prime''"
  "Name [0] = Inr ''cyprus''" "Name [1] = Inr ''paxos''" "Name [2] = Inr ''hydra''"
  "Name [0, 0] = Inr ''cyprus1''" "Name [0, 1] = Inr ''cyprus2''" "Name [0, 2] = Inr ''cyprus3''"
  "Name [1, 0] = Inr ''paxos1''" "Name [1, 1] = Inr ''paxos2''" "Name [1, 2] = Inr ''paxos3''"
  "Name [2, 0] = Inr ''hydra1''" "Name [2, 1] = Inr ''hydra2''" "Name [2, 2] = Inr ''hydra3''"
  by (simp_all add: Name_unfold)

lemma range_values:
  "locationToPrefixRange ''prime'' = Some (NewRange 0 9)"
  "locationToPrefixRange ''cyprus'' = Some (NewRange 10 19)"
  "locationToPrefixRange ''cyprus1'' = Some (NewRange 20 29)"
  "locationToPrefixRange ''cyprus2'' = Some (NewRange 30 39)"
  "locationToPrefixRange ''cyprus3'' = Some (NewRange 40 49)"
  "locationToPrefixRange ''paxos'' = Some (NewRange 50 59)"
  "locationToPrefixRange ''paxos1'' = Some (NewRange 60 69)"
  "locationToPrefixRange ''paxos2'' = Some (NewRange 70 79)"
  "locationToPrefixRange ''paxos3'' = Some (NewRange 80 89)"
  "locationToPrefixRange ''hydra'' = Some (NewRange 90 99)"
  "locationToPrefixRange ''hydra1'' = Some (NewRange 100 109)"
  "locationToPrefixRange ''hydra2'' = Some (NewRange 110 119)"
  "locationToPrefixRange ''hydra3'' = Some (NewRange 120 129)"
  by (simp_all add: locationToPrefixRange_def)

lemma ContainsAddress_values:
  "ContainsAddress [] a = Inr (0 \<le> uint (a ! 0) \<and> uint (a ! 0) \<le> 9)"
  "ContainsAddress [0] a = Inr (10 \<le> uint (a ! 0) \<and> uint (a ! 0) \<le> 19)"
  "ContainsAddress [0, 0] a = Inr (20 \<le> uint (a ! 0) \<and> uint (a ! 0) \<le> 29)"
  "ContainsAddress [0, 1] a = Inr (30 \<le> uint (a ! 0) \<and> uint (a ! 0) \<le> 39)"
  "ContainsAddress [0, 2] a = Inr (40 \<le> uint (a ! 0) \<and> uint (a ! 0) \<le> 49)"
  "ContainsAddress [1] a = Inr (50 \<le> uint (a ! 0) \<and> uint (a ! 0) \<le> 59)"
  "ContainsAddress [1, 0] a = Inr (60 \<le> uint (a ! 0) \<and> uint (a ! 0) \<le> 69)"
  "ContainsAddress [1, 1] a = Inr (70 \<le> uint (a ! 0) \<and> uint (a ! 0) \<le> 79)"
  "ContainsAddress [1, 2] a = Inr (80 \<le> uint (a ! 0) \<and> uint (a ! 0) \<le> 89)"
  "ContainsAddress [2] a = Inr (90 \<le> uint (a ! 0) \<and> uint (a ! 0) \<le> 99)"
  "ContainsAddress [2, 0] a = Inr (100 \<le> uint (a ! 0) \<and> uint (a ! 0) \<le> 109)"
  "ContainsAddress [2, 1] a = Inr (110 \<le> uint (a ! 0) \<and> uint (a ! 0) \<le> 119)"
  "ContainsAddress [2, 2] a = Inr (120 \<le> uint (a ! 0) \<and> uint (a ! 0) \<le> 129)"
  by (simp_all add: ContainsAddress_def Let_def Name_values range_values NewRange_def word_le_def)


lemma go_rem_nonneg: "0 \<le> a \<Longrightarrow> go_rem a 3 = a mod 3"
  by (cases "a = 0") (simp_all add: go_rem_def)

lemma Location_zones_mod:
  assumes "0 \<le> R" "0 \<le> Z" "0 \<le> r" "\<forall>z \<in> set zs. 0 \<le> z"
  shows "Location_zones a R Z 3 r zs = Location_zones a (R mod 3) (Z mod 3) 3 r zs"
  using assms(4)
proof (induction zs)
  case Nil
  show ?case by simp
next
  case (Cons z zs)
  have z: "0 \<le> z" using Cons.prems by simp
  have "go_rem (r + R) 3 = go_rem (r + R mod 3) 3"
    using assms(1,3) by (simp add: go_rem_nonneg mod_add_right_eq)
  moreover have "go_rem (z + Z) 3 = go_rem (z + Z mod 3) 3"
    using assms(2) z by (simp add: go_rem_nonneg mod_add_right_eq)
  moreover have "Location_zones a R Z 3 r zs = Location_zones a (R mod 3) (Z mod 3) 3 r zs"
    using Cons by simp
  ultimately show ?case by (simp add: Let_def split: sum.split)
qed

lemma Location_regions_mod:
  assumes "0 \<le> R" "0 \<le> Z" "\<forall>r \<in> set rs. 0 \<le> r"
  shows "Location_regions a R Z 3 pc rs = Location_regions a (R mod 3) (Z mod 3) 3 pc rs"
  using assms(3)
proof (induction rs arbitrary: pc)
  case Nil
  show ?case by (simp add: Location_regions.simps)
next
  case (Cons r rs)
  have r: "0 \<le> r" using Cons.prems by simp
  have g: "go_rem (r + R) 3 = go_rem (r + R mod 3) 3"
    using assms(1) r by (simp add: go_rem_nonneg mod_add_right_eq)
  have zs: "Location_zones a R Z 3 r zs = Location_zones a (R mod 3) (Z mod 3) 3 r zs"
    if "\<forall>z \<in> set zs. 0 \<le> z" for zs
    using Location_zones_mod [OF assms(1,2) r that] .
  have ih: "Location_regions a R Z 3 pc' rs = Location_regions a (R mod 3) (Z mod 3) 3 pc' rs"
    for pc'
    using Cons by simp
  show ?case
    by (simp add: Location_regions.simps Let_def g zs ih NumZonesInRegion_def
        split: sum.split option.split del: Location_zones.simps)
qed

lemma mod3_cases: "(x :: int) mod 3 = 0 \<or> x mod 3 = 1 \<or> x mod 3 = 2"
  by presburger

lemma loop_indices: "map int [0..<3] = [0, 1, 2]"
proof -
  have "[0..<3] = [0, 1, 2]" by (simp add: upt_rec)
  then show ?thesis by simp
qed

lemma Location_regions_ranges:
  assumes "R = 0 \<or> R = 1 \<or> R = 2" "Z = 0 \<or> Z = 1 \<or> Z = 2"
  shows
    "uint (a ! 0) \<le> 9 \<Longrightarrow> Location_regions a R Z 3 False [0, 1, 2] = Inr (Some [])"
    "10 \<le> uint (a ! 0) \<Longrightarrow> uint (a ! 0) \<le> 19 \<Longrightarrow> Location_regions a R Z 3 False [0, 1, 2] = Inr (Some [0])"
    "20 \<le> uint (a ! 0) \<Longrightarrow> uint (a ! 0) \<le> 29 \<Longrightarrow> Location_regions a R Z 3 False [0, 1, 2] = Inr (Some [0, 0])"
    "30 \<le> uint (a ! 0) \<Longrightarrow> uint (a ! 0) \<le> 39 \<Longrightarrow> Location_regions a R Z 3 False [0, 1, 2] = Inr (Some [0, 1])"
    "40 \<le> uint (a ! 0) \<Longrightarrow> uint (a ! 0) \<le> 49 \<Longrightarrow> Location_regions a R Z 3 False [0, 1, 2] = Inr (Some [0, 2])"
    "50 \<le> uint (a ! 0) \<Longrightarrow> uint (a ! 0) \<le> 59 \<Longrightarrow> Location_regions a R Z 3 False [0, 1, 2] = Inr (Some [1])"
    "60 \<le> uint (a ! 0) \<Longrightarrow> uint (a ! 0) \<le> 69 \<Longrightarrow> Location_regions a R Z 3 False [0, 1, 2] = Inr (Some [1, 0])"
    "70 \<le> uint (a ! 0) \<Longrightarrow> uint (a ! 0) \<le> 79 \<Longrightarrow> Location_regions a R Z 3 False [0, 1, 2] = Inr (Some [1, 1])"
    "80 \<le> uint (a ! 0) \<Longrightarrow> uint (a ! 0) \<le> 89 \<Longrightarrow> Location_regions a R Z 3 False [0, 1, 2] = Inr (Some [1, 2])"
    "90 \<le> uint (a ! 0) \<Longrightarrow> uint (a ! 0) \<le> 99 \<Longrightarrow> Location_regions a R Z 3 False [0, 1, 2] = Inr (Some [2])"
    "100 \<le> uint (a ! 0) \<Longrightarrow> uint (a ! 0) \<le> 109 \<Longrightarrow> Location_regions a R Z 3 False [0, 1, 2] = Inr (Some [2, 0])"
    "110 \<le> uint (a ! 0) \<Longrightarrow> uint (a ! 0) \<le> 119 \<Longrightarrow> Location_regions a R Z 3 False [0, 1, 2] = Inr (Some [2, 1])"
    "120 \<le> uint (a ! 0) \<Longrightarrow> uint (a ! 0) \<le> 129 \<Longrightarrow> Location_regions a R Z 3 False [0, 1, 2] = Inr (Some [2, 2])"
    "130 \<le> uint (a ! 0) \<Longrightarrow> Location_regions a R Z 3 False [0, 1, 2] = Inr None"
  using assms
  by (auto simp: Location_regions.simps ContainsAddress_values go_rem_def byte_def
      NumZonesInRegion_def loop_indices)

lemma Address_Location_search:
  "\<exists>R Z. (R = 0 \<or> R = 1 \<or> R = 2) \<and> (Z = 0 \<or> Z = 1 \<or> Z = 2) \<and>
     Address_Location nl a = Location_regions a R Z 3 False [0, 1, 2]"
proof -
  define R where "R = (if HasRegion nl then Region nl else 0)"
  define Z where "Z = (if HasZone nl then Zone nl else 0)"
  have R: "0 \<le> R" and Z: "0 \<le> Z"
    by (simp_all add: R_def Z_def HasRegion_def HasZone_def)
  have "Address_Location nl a = Location_regions a R Z 3 False (map int [0..<3])"
    by (simp add: Address_Location_def R_def Z_def HierarchyDepth_def NumRegionsInPrime_def
        Let_def)
  also have "\<dots> = Location_regions a R Z 3 False [0, 1, 2]"
    by (simp only: loop_indices)
  also have "\<dots> = Location_regions a (R mod 3) (Z mod 3) 3 False [0, 1, 2]"
    by (rule Location_regions_mod [OF R Z]) simp
  finally have eq: "Address_Location nl a =
      Location_regions a (R mod 3) (Z mod 3) 3 False [0, 1, 2]" .
  have "R mod 3 = 0 \<or> R mod 3 = 1 \<or> R mod 3 = 2" by (rule mod3_cases)
  moreover have "Z mod 3 = 0 \<or> Z mod 3 = 1 \<or> Z mod 3 = 2" by (rule mod3_cases)
  ultimately show ?thesis
    using eq by (intro exI [of _ "R mod 3"] exI [of _ "Z mod 3"] conjI)
qed

lemma Address_Location_ranges:
  shows
    "uint (a ! 0) \<le> 9 \<Longrightarrow> Address_Location nl a = Inr (Some [])"
    "10 \<le> uint (a ! 0) \<Longrightarrow> uint (a ! 0) \<le> 19 \<Longrightarrow> Address_Location nl a = Inr (Some [0])"
    "20 \<le> uint (a ! 0) \<Longrightarrow> uint (a ! 0) \<le> 29 \<Longrightarrow> Address_Location nl a = Inr (Some [0, 0])"
    "30 \<le> uint (a ! 0) \<Longrightarrow> uint (a ! 0) \<le> 39 \<Longrightarrow> Address_Location nl a = Inr (Some [0, 1])"
    "40 \<le> uint (a ! 0) \<Longrightarrow> uint (a ! 0) \<le> 49 \<Longrightarrow> Address_Location nl a = Inr (Some [0, 2])"
    "50 \<le> uint (a ! 0) \<Longrightarrow> uint (a ! 0) \<le> 59 \<Longrightarrow> Address_Location nl a = Inr (Some [1])"
    "60 \<le> uint (a ! 0) \<Longrightarrow> uint (a ! 0) \<le> 69 \<Longrightarrow> Address_Location nl a = Inr (Some [1, 0])"
    "70 \<le> uint (a ! 0) \<Longrightarrow> uint (a ! 0) \<le> 79 \<Longrightarrow> Address_Location nl a = Inr (Some [1, 1])"
    "80 \<le> uint (a ! 0) \<Longrightarrow> uint (a ! 0) \<le> 89 \<Longrightarrow> Address_Location nl a = Inr (Some [1, 2])"
    "90 \<le> uint (a ! 0) \<Longrightarrow> uint (a ! 0) \<le> 99 \<Longrightarrow> Address_Location nl a = Inr (Some [2])"
    "100 \<le> uint (a ! 0) \<Longrightarrow> uint (a ! 0) \<le> 109 \<Longrightarrow> Address_Location nl a = Inr (Some [2, 0])"
    "110 \<le> uint (a ! 0) \<Longrightarrow> uint (a ! 0) \<le> 119 \<Longrightarrow> Address_Location nl a = Inr (Some [2, 1])"
    "120 \<le> uint (a ! 0) \<Longrightarrow> uint (a ! 0) \<le> 129 \<Longrightarrow> Address_Location nl a = Inr (Some [2, 2])"
    "130 \<le> uint (a ! 0) \<Longrightarrow> Address_Location nl a = Inr None"
proof -
  obtain R Z where R: "R = 0 \<or> R = 1 \<or> R = 2" and Z: "Z = 0 \<or> Z = 1 \<or> Z = 2"
    and eq: "Address_Location nl a = Location_regions a R Z 3 False [0, 1, 2]"
    using Address_Location_search [of nl a] by blast
  note rr = Location_regions_ranges [OF R Z, of a]
  show
    "uint (a ! 0) \<le> 9 \<Longrightarrow> Address_Location nl a = Inr (Some [])"
    "10 \<le> uint (a ! 0) \<Longrightarrow> uint (a ! 0) \<le> 19 \<Longrightarrow> Address_Location nl a = Inr (Some [0])"
    "20 \<le> uint (a ! 0) \<Longrightarrow> uint (a ! 0) \<le> 29 \<Longrightarrow> Address_Location nl a = Inr (Some [0, 0])"
    "30 \<le> uint (a ! 0) \<Longrightarrow> uint (a ! 0) \<le> 39 \<Longrightarrow> Address_Location nl a = Inr (Some [0, 1])"
    "40 \<le> uint (a ! 0) \<Longrightarrow> uint (a ! 0) \<le> 49 \<Longrightarrow> Address_Location nl a = Inr (Some [0, 2])"
    "50 \<le> uint (a ! 0) \<Longrightarrow> uint (a ! 0) \<le> 59 \<Longrightarrow> Address_Location nl a = Inr (Some [1])"
    "60 \<le> uint (a ! 0) \<Longrightarrow> uint (a ! 0) \<le> 69 \<Longrightarrow> Address_Location nl a = Inr (Some [1, 0])"
    "70 \<le> uint (a ! 0) \<Longrightarrow> uint (a ! 0) \<le> 79 \<Longrightarrow> Address_Location nl a = Inr (Some [1, 1])"
    "80 \<le> uint (a ! 0) \<Longrightarrow> uint (a ! 0) \<le> 89 \<Longrightarrow> Address_Location nl a = Inr (Some [1, 2])"
    "90 \<le> uint (a ! 0) \<Longrightarrow> uint (a ! 0) \<le> 99 \<Longrightarrow> Address_Location nl a = Inr (Some [2])"
    "100 \<le> uint (a ! 0) \<Longrightarrow> uint (a ! 0) \<le> 109 \<Longrightarrow> Address_Location nl a = Inr (Some [2, 0])"
    "110 \<le> uint (a ! 0) \<Longrightarrow> uint (a ! 0) \<le> 119 \<Longrightarrow> Address_Location nl a = Inr (Some [2, 1])"
    "120 \<le> uint (a ! 0) \<Longrightarrow> uint (a ! 0) \<le> 129 \<Longrightarrow> Address_Location nl a = Inr (Some [2, 2])"
    "130 \<le> uint (a ! 0) \<Longrightarrow> Address_Location nl a = Inr None"
    unfolding eq by (fact rr)+
qed

lemma ZeroAddr_first: "length ZeroAddr = AddressLength" "ZeroAddr ! 0 = 0"
  by (simp_all add: ZeroAddr_def BytesToAddress_def SetBytes_def AddressLength_def nth_append)


lemma first_byte_cases:
  fixes n :: int
  assumes "0 \<le> n"
  obtains "n \<le> 9" | "10 \<le> n" "n \<le> 19" | "20 \<le> n" "n \<le> 29" | "30 \<le> n" "n \<le> 39"
    | "40 \<le> n" "n \<le> 49" | "50 \<le> n" "n \<le> 59" | "60 \<le> n" "n \<le> 69" | "70 \<le> n" "n \<le> 79"
    | "80 \<le> n" "n \<le> 89" | "90 \<le> n" "n \<le> 99" | "100 \<le> n" "n \<le> 109"
    | "110 \<le> n" "n \<le> 119" | "120 \<le> n" "n \<le> 129" | "130 \<le> n"
proof -
  have "n \<le> 9 \<or> (10 \<le> n \<and> n \<le> 19) \<or> (20 \<le> n \<and> n \<le> 29) \<or> (30 \<le> n \<and> n \<le> 39) \<or>
        (40 \<le> n \<and> n \<le> 49) \<or> (50 \<le> n \<and> n \<le> 59) \<or> (60 \<le> n \<and> n \<le> 69) \<or>
        (70 \<le> n \<and> n \<le> 79) \<or> (80 \<le> n \<and> n \<le> 89) \<or> (90 \<le> n \<and> n \<le> 99) \<or>
        (100 \<le> n \<and> n \<le> 109) \<or> (110 \<le> n \<and> n \<le> 119) \<or> (120 \<le> n \<and> n \<le> 129) \<or>
        130 \<le> n"
    by arith
  then show thesis
    using that by blast
qed

lemma valid_location_cases:
  fixes l :: Location
  assumes "length l \<le> 2" and "\<forall>c \<in> set l. uint c < NumRegionsInPrime"
  shows "l = [] \<or> l = [0] \<or> l = [0, 0] \<or> l = [0, 1] \<or> l = [0, 2] \<or> l = [1] \<or> l = [1, 0] \<or> l = [1, 1] \<or> l = [1, 2] \<or> l = [2] \<or> l = [2, 0] \<or> l = [2, 1] \<or> l = [2, 2]"
proof -
  consider "l = []" | x where "l = [x]" | x y where "l = [x, y]"
    using assms(1) by (cases l; cases "tl l"; cases "tl (tl l)") auto
  then show ?thesis
  proof cases
    case 1
    then show ?thesis by simp
  next
    case 2
    then have "uint x < 3" using assms(2) by (simp add: NumRegionsInPrime_def)
    then show ?thesis using 2 coord_cases [of x] by auto
  next
    case 3
    then have "uint x < 3" "uint y < 3" using assms(2) by (simp_all add: NumRegionsInPrime_def)
    then show ?thesis using 3 coord_cases [of x] coord_cases [of y] by auto
  qed
qed

lemma ContainsAddress_unique:
  fixes l :: Location
  assumes "length l \<le> 2" and "\<forall>c \<in> set l. uint c < NumRegionsInPrime"
  shows
    "uint (a ! 0) \<le> 9 \<Longrightarrow> ContainsAddress l a = Inr True \<Longrightarrow> l = []"
    "10 \<le> uint (a ! 0) \<Longrightarrow> uint (a ! 0) \<le> 19 \<Longrightarrow> ContainsAddress l a = Inr True \<Longrightarrow> l = [0]"
    "20 \<le> uint (a ! 0) \<Longrightarrow> uint (a ! 0) \<le> 29 \<Longrightarrow> ContainsAddress l a = Inr True \<Longrightarrow> l = [0, 0]"
    "30 \<le> uint (a ! 0) \<Longrightarrow> uint (a ! 0) \<le> 39 \<Longrightarrow> ContainsAddress l a = Inr True \<Longrightarrow> l = [0, 1]"
    "40 \<le> uint (a ! 0) \<Longrightarrow> uint (a ! 0) \<le> 49 \<Longrightarrow> ContainsAddress l a = Inr True \<Longrightarrow> l = [0, 2]"
    "50 \<le> uint (a ! 0) \<Longrightarrow> uint (a ! 0) \<le> 59 \<Longrightarrow> ContainsAddress l a = Inr True \<Longrightarrow> l = [1]"
    "60 \<le> uint (a ! 0) \<Longrightarrow> uint (a ! 0) \<le> 69 \<Longrightarrow> ContainsAddress l a = Inr True \<Longrightarrow> l = [1, 0]"
    "70 \<le> uint (a ! 0) \<Longrightarrow> uint (a ! 0) \<le> 79 \<Longrightarrow> ContainsAddress l a = Inr True \<Longrightarrow> l = [1, 1]"
    "80 \<le> uint (a ! 0) \<Longrightarrow> uint (a ! 0) \<le> 89 \<Longrightarrow> ContainsAddress l a = Inr True \<Longrightarrow> l = [1, 2]"
    "90 \<le> uint (a ! 0) \<Longrightarrow> uint (a ! 0) \<le> 99 \<Longrightarrow> ContainsAddress l a = Inr True \<Longrightarrow> l = [2]"
    "100 \<le> uint (a ! 0) \<Longrightarrow> uint (a ! 0) \<le> 109 \<Longrightarrow> ContainsAddress l a = Inr True \<Longrightarrow> l = [2, 0]"
    "110 \<le> uint (a ! 0) \<Longrightarrow> uint (a ! 0) \<le> 119 \<Longrightarrow> ContainsAddress l a = Inr True \<Longrightarrow> l = [2, 1]"
    "120 \<le> uint (a ! 0) \<Longrightarrow> uint (a ! 0) \<le> 129 \<Longrightarrow> ContainsAddress l a = Inr True \<Longrightarrow> l = [2, 2]"
    "130 \<le> uint (a ! 0) \<Longrightarrow> ContainsAddress l a = Inr False"
  using valid_location_cases [OF assms]
  by (auto simp: ContainsAddress_values)


lemma leaf_cases:
  fixes l :: Location
  assumes "length l = 2" and "\<forall>c \<in> set l. uint c < NumRegionsInPrime"
  shows "l = [0, 0] \<or> l = [0, 1] \<or> l = [0, 2] \<or> l = [1, 0] \<or> l = [1, 1] \<or> l = [1, 2] \<or>
         l = [2, 0] \<or> l = [2, 1] \<or> l = [2, 2]"
  using valid_location_cases [of l] assms by auto

text \<open>
  Claim C1, as amended. \<open>Address.Location()\<close> does not depend on the node's own location.
  It returns the one valid location, of any tier (top, region or zone), whose registered
  first-byte range contains the address, or \<open>nil\<close> when no valid location's range does;
  it never takes a fatal exit.
\<close>

theorem Address_Location_partition:
  assumes "length a = AddressLength"
  shows "Address_Location nl a = Address_Location nl' a \<and>
    ((\<exists>l. Address_Location nl a = Inr (Some l) \<and>
          length l \<le> 2 \<and> (\<forall>c \<in> set l. uint c < NumRegionsInPrime) \<and>
          ContainsAddress l a = Inr True \<and>
          (\<forall>l'. length l' \<le> 2 \<and> (\<forall>c \<in> set l'. uint c < NumRegionsInPrime) \<and>
                ContainsAddress l' a = Inr True \<longrightarrow> l' = l)) \<or>
     (Address_Location nl a = Inr None \<and>
      (\<forall>l'. length l' \<le> 2 \<and> (\<forall>c \<in> set l'. uint c < NumRegionsInPrime) \<longrightarrow>
            ContainsAddress l' a = Inr False)))"
proof -
  have found: ?thesis
    if loc: "\<And>nl. Address_Location nl a = Inr (Some l)"
      and valid: "length l \<le> 2" "\<forall>c \<in> set l. uint c < NumRegionsInPrime"
      and inside: "ContainsAddress l a = Inr True"
      and only: "\<And>l'. length l' \<le> 2 \<Longrightarrow> \<forall>c \<in> set l'. uint c < NumRegionsInPrime \<Longrightarrow>
                  ContainsAddress l' a = Inr True \<Longrightarrow> l' = l"
    for l
  proof -
    have "Address_Location nl a = Address_Location nl' a"
      by (simp only: loc)
    moreover have "\<forall>l'. length l' \<le> 2 \<and> (\<forall>c \<in> set l'. uint c < NumRegionsInPrime) \<and>
                ContainsAddress l' a = Inr True \<longrightarrow> l' = l"
      using only by blast
    ultimately show ?thesis
      using loc [of nl] valid inside by blast
  qed
  have "0 \<le> uint (a ! 0)" by simp
  then show ?thesis
  proof (cases rule: first_byte_cases)
    case 1
    show ?thesis
    proof (rule found [of "[]"])
      show "Address_Location nl a = Inr (Some [])" for nl
        using 1 by (rule Address_Location_ranges(1))
      show "length ([] :: Location) \<le> 2" by simp
      show "\<forall>c \<in> set ([] :: Location). uint c < NumRegionsInPrime"
        by (simp add: NumRegionsInPrime_def)
      show "ContainsAddress [] a = Inr True"
        using 1 by (simp add: ContainsAddress_values)
      show "l' = []"
        if "length l' \<le> 2" "\<forall>c \<in> set l'. uint c < NumRegionsInPrime"
          "ContainsAddress l' a = Inr True" for l'
        using ContainsAddress_unique(1) [OF that(1,2) 1 that(3)] .
    qed
  next
    case 2
    show ?thesis
    proof (rule found [of "[0]"])
      show "Address_Location nl a = Inr (Some [0])" for nl
        using 2 by (rule Address_Location_ranges(2))
      show "length ([0] :: Location) \<le> 2" by simp
      show "\<forall>c \<in> set ([0] :: Location). uint c < NumRegionsInPrime"
        by (simp add: NumRegionsInPrime_def)
      show "ContainsAddress [0] a = Inr True"
        using 2 by (simp add: ContainsAddress_values)
      show "l' = [0]"
        if "length l' \<le> 2" "\<forall>c \<in> set l'. uint c < NumRegionsInPrime"
          "ContainsAddress l' a = Inr True" for l'
        using ContainsAddress_unique(2) [OF that(1,2) 2 that(3)] .
    qed
  next
    case 3
    show ?thesis
    proof (rule found [of "[0, 0]"])
      show "Address_Location nl a = Inr (Some [0, 0])" for nl
        using 3 by (rule Address_Location_ranges(3))
      show "length ([0, 0] :: Location) \<le> 2" by simp
      show "\<forall>c \<in> set ([0, 0] :: Location). uint c < NumRegionsInPrime"
        by (simp add: NumRegionsInPrime_def)
      show "ContainsAddress [0, 0] a = Inr True"
        using 3 by (simp add: ContainsAddress_values)
      show "l' = [0, 0]"
        if "length l' \<le> 2" "\<forall>c \<in> set l'. uint c < NumRegionsInPrime"
          "ContainsAddress l' a = Inr True" for l'
        using ContainsAddress_unique(3) [OF that(1,2) 3 that(3)] .
    qed
  next
    case 4
    show ?thesis
    proof (rule found [of "[0, 1]"])
      show "Address_Location nl a = Inr (Some [0, 1])" for nl
        using 4 by (rule Address_Location_ranges(4))
      show "length ([0, 1] :: Location) \<le> 2" by simp
      show "\<forall>c \<in> set ([0, 1] :: Location). uint c < NumRegionsInPrime"
        by (simp add: NumRegionsInPrime_def)
      show "ContainsAddress [0, 1] a = Inr True"
        using 4 by (simp add: ContainsAddress_values)
      show "l' = [0, 1]"
        if "length l' \<le> 2" "\<forall>c \<in> set l'. uint c < NumRegionsInPrime"
          "ContainsAddress l' a = Inr True" for l'
        using ContainsAddress_unique(4) [OF that(1,2) 4 that(3)] .
    qed
  next
    case 5
    show ?thesis
    proof (rule found [of "[0, 2]"])
      show "Address_Location nl a = Inr (Some [0, 2])" for nl
        using 5 by (rule Address_Location_ranges(5))
      show "length ([0, 2] :: Location) \<le> 2" by simp
      show "\<forall>c \<in> set ([0, 2] :: Location). uint c < NumRegionsInPrime"
        by (simp add: NumRegionsInPrime_def)
      show "ContainsAddress [0, 2] a = Inr True"
        using 5 by (simp add: ContainsAddress_values)
      show "l' = [0, 2]"
        if "length l' \<le> 2" "\<forall>c \<in> set l'. uint c < NumRegionsInPrime"
          "ContainsAddress l' a = Inr True" for l'
        using ContainsAddress_unique(5) [OF that(1,2) 5 that(3)] .
    qed
  next
    case 6
    show ?thesis
    proof (rule found [of "[1]"])
      show "Address_Location nl a = Inr (Some [1])" for nl
        using 6 by (rule Address_Location_ranges(6))
      show "length ([1] :: Location) \<le> 2" by simp
      show "\<forall>c \<in> set ([1] :: Location). uint c < NumRegionsInPrime"
        by (simp add: NumRegionsInPrime_def)
      show "ContainsAddress [1] a = Inr True"
        using 6 by (simp add: ContainsAddress_values)
      show "l' = [1]"
        if "length l' \<le> 2" "\<forall>c \<in> set l'. uint c < NumRegionsInPrime"
          "ContainsAddress l' a = Inr True" for l'
        using ContainsAddress_unique(6) [OF that(1,2) 6 that(3)] .
    qed
  next
    case 7
    show ?thesis
    proof (rule found [of "[1, 0]"])
      show "Address_Location nl a = Inr (Some [1, 0])" for nl
        using 7 by (rule Address_Location_ranges(7))
      show "length ([1, 0] :: Location) \<le> 2" by simp
      show "\<forall>c \<in> set ([1, 0] :: Location). uint c < NumRegionsInPrime"
        by (simp add: NumRegionsInPrime_def)
      show "ContainsAddress [1, 0] a = Inr True"
        using 7 by (simp add: ContainsAddress_values)
      show "l' = [1, 0]"
        if "length l' \<le> 2" "\<forall>c \<in> set l'. uint c < NumRegionsInPrime"
          "ContainsAddress l' a = Inr True" for l'
        using ContainsAddress_unique(7) [OF that(1,2) 7 that(3)] .
    qed
  next
    case 8
    show ?thesis
    proof (rule found [of "[1, 1]"])
      show "Address_Location nl a = Inr (Some [1, 1])" for nl
        using 8 by (rule Address_Location_ranges(8))
      show "length ([1, 1] :: Location) \<le> 2" by simp
      show "\<forall>c \<in> set ([1, 1] :: Location). uint c < NumRegionsInPrime"
        by (simp add: NumRegionsInPrime_def)
      show "ContainsAddress [1, 1] a = Inr True"
        using 8 by (simp add: ContainsAddress_values)
      show "l' = [1, 1]"
        if "length l' \<le> 2" "\<forall>c \<in> set l'. uint c < NumRegionsInPrime"
          "ContainsAddress l' a = Inr True" for l'
        using ContainsAddress_unique(8) [OF that(1,2) 8 that(3)] .
    qed
  next
    case 9
    show ?thesis
    proof (rule found [of "[1, 2]"])
      show "Address_Location nl a = Inr (Some [1, 2])" for nl
        using 9 by (rule Address_Location_ranges(9))
      show "length ([1, 2] :: Location) \<le> 2" by simp
      show "\<forall>c \<in> set ([1, 2] :: Location). uint c < NumRegionsInPrime"
        by (simp add: NumRegionsInPrime_def)
      show "ContainsAddress [1, 2] a = Inr True"
        using 9 by (simp add: ContainsAddress_values)
      show "l' = [1, 2]"
        if "length l' \<le> 2" "\<forall>c \<in> set l'. uint c < NumRegionsInPrime"
          "ContainsAddress l' a = Inr True" for l'
        using ContainsAddress_unique(9) [OF that(1,2) 9 that(3)] .
    qed
  next
    case 10
    show ?thesis
    proof (rule found [of "[2]"])
      show "Address_Location nl a = Inr (Some [2])" for nl
        using 10 by (rule Address_Location_ranges(10))
      show "length ([2] :: Location) \<le> 2" by simp
      show "\<forall>c \<in> set ([2] :: Location). uint c < NumRegionsInPrime"
        by (simp add: NumRegionsInPrime_def)
      show "ContainsAddress [2] a = Inr True"
        using 10 by (simp add: ContainsAddress_values)
      show "l' = [2]"
        if "length l' \<le> 2" "\<forall>c \<in> set l'. uint c < NumRegionsInPrime"
          "ContainsAddress l' a = Inr True" for l'
        using ContainsAddress_unique(10) [OF that(1,2) 10 that(3)] .
    qed
  next
    case 11
    show ?thesis
    proof (rule found [of "[2, 0]"])
      show "Address_Location nl a = Inr (Some [2, 0])" for nl
        using 11 by (rule Address_Location_ranges(11))
      show "length ([2, 0] :: Location) \<le> 2" by simp
      show "\<forall>c \<in> set ([2, 0] :: Location). uint c < NumRegionsInPrime"
        by (simp add: NumRegionsInPrime_def)
      show "ContainsAddress [2, 0] a = Inr True"
        using 11 by (simp add: ContainsAddress_values)
      show "l' = [2, 0]"
        if "length l' \<le> 2" "\<forall>c \<in> set l'. uint c < NumRegionsInPrime"
          "ContainsAddress l' a = Inr True" for l'
        using ContainsAddress_unique(11) [OF that(1,2) 11 that(3)] .
    qed
  next
    case 12
    show ?thesis
    proof (rule found [of "[2, 1]"])
      show "Address_Location nl a = Inr (Some [2, 1])" for nl
        using 12 by (rule Address_Location_ranges(12))
      show "length ([2, 1] :: Location) \<le> 2" by simp
      show "\<forall>c \<in> set ([2, 1] :: Location). uint c < NumRegionsInPrime"
        by (simp add: NumRegionsInPrime_def)
      show "ContainsAddress [2, 1] a = Inr True"
        using 12 by (simp add: ContainsAddress_values)
      show "l' = [2, 1]"
        if "length l' \<le> 2" "\<forall>c \<in> set l'. uint c < NumRegionsInPrime"
          "ContainsAddress l' a = Inr True" for l'
        using ContainsAddress_unique(12) [OF that(1,2) 12 that(3)] .
    qed
  next
    case 13
    show ?thesis
    proof (rule found [of "[2, 2]"])
      show "Address_Location nl a = Inr (Some [2, 2])" for nl
        using 13 by (rule Address_Location_ranges(13))
      show "length ([2, 2] :: Location) \<le> 2" by simp
      show "\<forall>c \<in> set ([2, 2] :: Location). uint c < NumRegionsInPrime"
        by (simp add: NumRegionsInPrime_def)
      show "ContainsAddress [2, 2] a = Inr True"
        using 13 by (simp add: ContainsAddress_values)
      show "l' = [2, 2]"
        if "length l' \<le> 2" "\<forall>c \<in> set l'. uint c < NumRegionsInPrime"
          "ContainsAddress l' a = Inr True" for l'
        using ContainsAddress_unique(13) [OF that(1,2) 13 that(3)] .
    qed
  next
    case 14
    have none: "Address_Location nl a = Inr None" for nl
      using 14 by (rule Address_Location_ranges(14))
    have "ContainsAddress l' a = Inr False"
      if "length l' \<le> 2" "\<forall>c \<in> set l'. uint c < NumRegionsInPrime" for l'
      using ContainsAddress_unique(14) [OF that 14] .
    then have "\<forall>l'. length l' \<le> 2 \<and> (\<forall>c \<in> set l'. uint c < NumRegionsInPrime) \<longrightarrow>
            ContainsAddress l' a = Inr False"
      by blast
    moreover have "Address_Location nl a = Address_Location nl' a"
      by (simp only: none)
    ultimately show ?thesis
      using none [of nl] by blast
  qed
qed


theorem Address_Location_partition_witness:
  "length (15 # replicate 19 (0 :: 8 word)) = AddressLength \<and>
   Address_Location [0, 0] (15 # replicate 19 0) = Address_Location [2, 1] (15 # replicate 19 0) \<and>
   Address_Location [0, 0] (15 # replicate 19 0) = Inr (Some [0]) \<and>
   ContainsAddress [0] (15 # replicate 19 0) = Inr True"
proof -
  have h: "length (15 # replicate 19 (0 :: 8 word)) = AddressLength"
    by (simp add: AddressLength_def)
  have r: "Address_Location [0, 0] (15 # replicate 19 0) = Inr (Some [0])"
    by (rule Address_Location_ranges(2)) simp_all
  have c: "ContainsAddress [0] (15 # replicate 19 0) = Inr True"
    by (simp add: ContainsAddress_values)
  show ?thesis
    using h r c Address_Location_partition [OF h, of "[0, 0]" "[2, 1]"] by simp
qed

text \<open>
  Claim C1 as stated fails: an address with first byte 15 resolves to the region
  location \<open>[0]\<close> (cyprus), and an address with first byte 5, which is not the zero
  address, resolves to the top location.
\<close>

theorem Address_Location_region_counterexample:
  "Address_Location [0, 0] (15 # replicate 19 0) = Inr (Some [0]) \<and>
   Context [0] = Inr REGION_CTX \<and>
   Address_Location [0, 0] (5 # replicate 19 0) = Inr (Some []) \<and>
   5 # replicate 19 0 \<noteq> ZeroAddr"
proof -
  have "Address_Location [0, 0] (15 # replicate 19 0) = Inr (Some [0])"
    by (rule Address_Location_ranges(2)) simp_all
  moreover have "Address_Location [0, 0] (5 # replicate 19 0) = Inr (Some [])"
    by (rule Address_Location_ranges(1)) simp
  moreover have "Context [0] = Inr REGION_CTX"
    by (simp add: Name_unfold)
  moreover have "5 # replicate 19 0 \<noteq> ZeroAddr"
  proof
    assume "5 # replicate 19 0 = ZeroAddr"
    then have "(5 # replicate 19 0 :: Address) ! 0 = ZeroAddr ! 0"
      by (rule arg_cong)
    then show False by (simp add: ZeroAddr_first)
  qed
  ultimately show ?thesis by simp
qed

text \<open>
  Claim C6. The zero address resolves to the top location. An address whose first byte
  lies in the range registered under the name of a zone location resolves to exactly that
  zone location, and that location contains the address.
\<close>

theorem leaf_address_resolves:
  "Address_Location nl ZeroAddr = Inr (Some []) \<and>
   (length a = AddressLength \<and> length l = 2 \<and> (\<forall>c \<in> set l. uint c < NumZonesInRegion) \<and>
    Name l = Inr nm \<and> locationToPrefixRange nm = Some r \<and> lo r \<le> a ! 0 \<and> a ! 0 \<le> hi r
    \<longrightarrow> Address_Location nl a = Inr (Some l) \<and> ContainsAddress l a = Inr True)"
proof -
  have zero: "Address_Location nl ZeroAddr = Inr (Some [])"
    by (rule Address_Location_ranges(1)) (simp add: ZeroAddr_first)
  have leaf: "Address_Location nl a = Inr (Some l) \<and> ContainsAddress l a = Inr True"
    if l: "length l = 2" "\<forall>c \<in> set l. uint c < NumZonesInRegion"
      and nm: "Name l = Inr nm" and r: "locationToPrefixRange nm = Some r"
      and b: "lo r \<le> a ! 0" "a ! 0 \<le> hi r"
  proof -
    have "\<forall>c \<in> set l. uint c < NumRegionsInPrime"
      using l(2) by (simp add: NumRegionsInPrime_def NumZonesInRegion_def)
    from leaf_cases [OF l(1) this] show ?thesis
    proof (elim disjE)
      assume l: "l = [0, 0]"
      with nm have "nm = ''cyprus1''" by (simp add: Name_values)
      with r have "r = NewRange 20 29" by (simp add: range_values)
      with b have "20 \<le> uint (a ! 0)" "uint (a ! 0) \<le> 29"
        by (simp_all add: NewRange_def word_le_def)
      then show ?thesis
        using l by (simp add: Address_Location_ranges ContainsAddress_values)
    next
      assume l: "l = [0, 1]"
      with nm have "nm = ''cyprus2''" by (simp add: Name_values)
      with r have "r = NewRange 30 39" by (simp add: range_values)
      with b have "30 \<le> uint (a ! 0)" "uint (a ! 0) \<le> 39"
        by (simp_all add: NewRange_def word_le_def)
      then show ?thesis
        using l by (simp add: Address_Location_ranges ContainsAddress_values)
    next
      assume l: "l = [0, 2]"
      with nm have "nm = ''cyprus3''" by (simp add: Name_values)
      with r have "r = NewRange 40 49" by (simp add: range_values)
      with b have "40 \<le> uint (a ! 0)" "uint (a ! 0) \<le> 49"
        by (simp_all add: NewRange_def word_le_def)
      then show ?thesis
        using l by (simp add: Address_Location_ranges ContainsAddress_values)
    next
      assume l: "l = [1, 0]"
      with nm have "nm = ''paxos1''" by (simp add: Name_values)
      with r have "r = NewRange 60 69" by (simp add: range_values)
      with b have "60 \<le> uint (a ! 0)" "uint (a ! 0) \<le> 69"
        by (simp_all add: NewRange_def word_le_def)
      then show ?thesis
        using l by (simp add: Address_Location_ranges ContainsAddress_values)
    next
      assume l: "l = [1, 1]"
      with nm have "nm = ''paxos2''" by (simp add: Name_values)
      with r have "r = NewRange 70 79" by (simp add: range_values)
      with b have "70 \<le> uint (a ! 0)" "uint (a ! 0) \<le> 79"
        by (simp_all add: NewRange_def word_le_def)
      then show ?thesis
        using l by (simp add: Address_Location_ranges ContainsAddress_values)
    next
      assume l: "l = [1, 2]"
      with nm have "nm = ''paxos3''" by (simp add: Name_values)
      with r have "r = NewRange 80 89" by (simp add: range_values)
      with b have "80 \<le> uint (a ! 0)" "uint (a ! 0) \<le> 89"
        by (simp_all add: NewRange_def word_le_def)
      then show ?thesis
        using l by (simp add: Address_Location_ranges ContainsAddress_values)
    next
      assume l: "l = [2, 0]"
      with nm have "nm = ''hydra1''" by (simp add: Name_values)
      with r have "r = NewRange 100 109" by (simp add: range_values)
      with b have "100 \<le> uint (a ! 0)" "uint (a ! 0) \<le> 109"
        by (simp_all add: NewRange_def word_le_def)
      then show ?thesis
        using l by (simp add: Address_Location_ranges ContainsAddress_values)
    next
      assume l: "l = [2, 1]"
      with nm have "nm = ''hydra2''" by (simp add: Name_values)
      with r have "r = NewRange 110 119" by (simp add: range_values)
      with b have "110 \<le> uint (a ! 0)" "uint (a ! 0) \<le> 119"
        by (simp_all add: NewRange_def word_le_def)
      then show ?thesis
        using l by (simp add: Address_Location_ranges ContainsAddress_values)
    next
      assume l: "l = [2, 2]"
      with nm have "nm = ''hydra3''" by (simp add: Name_values)
      with r have "r = NewRange 120 129" by (simp add: range_values)
      with b have "120 \<le> uint (a ! 0)" "uint (a ! 0) \<le> 129"
        by (simp_all add: NewRange_def word_le_def)
      then show ?thesis
        using l by (simp add: Address_Location_ranges ContainsAddress_values)
    qed
  qed
  from zero leaf show ?thesis by blast
qed

theorem leaf_address_resolves_witness:
  "length (75 # replicate 19 (0 :: 8 word)) = AddressLength \<and> length [1, 1 :: 8 word] = 2 \<and>
   uint (1 :: 8 word) < NumZonesInRegion \<and>
   Name [1, 1] = Inr ''paxos2'' \<and> locationToPrefixRange ''paxos2'' = Some (NewRange 70 79) \<and>
   lo (NewRange 70 79) \<le> (75 # replicate 19 0) ! 0 \<and>
   (75 # replicate 19 0) ! 0 \<le> hi (NewRange 70 79) \<and>
   Address_Location [0, 2] (75 # replicate 19 0) = Inr (Some [1, 1]) \<and>
   ContainsAddress [1, 1] (75 # replicate 19 0) = Inr True"
  using leaf_address_resolves [of "[0, 2]" "75 # replicate 19 0" "[1, 1]" "''paxos2''"
      "NewRange 70 79"]
  by (simp add: AddressLength_def NumZonesInRegion_def Name_values range_values NewRange_def)

lemma table_entries:
  assumes "locationToPrefixRange nm = Some r" "lo r \<le> b" "b \<le> hi r"
  shows "nm = ''prime'' \<and> 0 \<le> uint b \<and> uint b \<le> 9 \<or>
     nm = ''cyprus'' \<and> 10 \<le> uint b \<and> uint b \<le> 19 \<or>
     nm = ''cyprus1'' \<and> 20 \<le> uint b \<and> uint b \<le> 29 \<or>
     nm = ''cyprus2'' \<and> 30 \<le> uint b \<and> uint b \<le> 39 \<or>
     nm = ''cyprus3'' \<and> 40 \<le> uint b \<and> uint b \<le> 49 \<or>
     nm = ''paxos'' \<and> 50 \<le> uint b \<and> uint b \<le> 59 \<or>
     nm = ''paxos1'' \<and> 60 \<le> uint b \<and> uint b \<le> 69 \<or>
     nm = ''paxos2'' \<and> 70 \<le> uint b \<and> uint b \<le> 79 \<or>
     nm = ''paxos3'' \<and> 80 \<le> uint b \<and> uint b \<le> 89 \<or>
     nm = ''hydra'' \<and> 90 \<le> uint b \<and> uint b \<le> 99 \<or>
     nm = ''hydra1'' \<and> 100 \<le> uint b \<and> uint b \<le> 109 \<or>
     nm = ''hydra2'' \<and> 110 \<le> uint b \<and> uint b \<le> 119 \<or>
     nm = ''hydra3'' \<and> 120 \<le> uint b \<and> uint b \<le> 129"
  using assms
  by (auto simp: locationToPrefixRange_def NewRange_def word_le_def split: if_splits)

lemma table_disjoint:
  assumes "locationToPrefixRange nm = Some r" "lo r \<le> b" "b \<le> hi r"
    and "locationToPrefixRange nm' = Some r'" "lo r' \<le> b" "b \<le> hi r'"
  shows "nm = nm'"
  using table_entries [OF assms(1-3)] table_entries [OF assms(4-6)]
  by (elim disjE conjE; (simp; fail)?; linarith)


lemma table_cover:
  fixes b :: "8 word"
  assumes "uint b \<le> 129"
  shows "\<exists>nm r. locationToPrefixRange nm = Some r \<and> lo r \<le> b \<and> b \<le> hi r"
proof -
  have "0 \<le> uint b" by simp
  then show ?thesis
  proof (cases rule: first_byte_cases)
    case 1
    then show ?thesis
      by (intro exI [of _ "''prime''"] exI [of _ "NewRange 0 9"])
         (simp add: range_values NewRange_def word_le_def)
  next
    case 2
    then show ?thesis
      by (intro exI [of _ "''cyprus''"] exI [of _ "NewRange 10 19"])
         (simp add: range_values NewRange_def word_le_def)
  next
    case 3
    then show ?thesis
      by (intro exI [of _ "''cyprus1''"] exI [of _ "NewRange 20 29"])
         (simp add: range_values NewRange_def word_le_def)
  next
    case 4
    then show ?thesis
      by (intro exI [of _ "''cyprus2''"] exI [of _ "NewRange 30 39"])
         (simp add: range_values NewRange_def word_le_def)
  next
    case 5
    then show ?thesis
      by (intro exI [of _ "''cyprus3''"] exI [of _ "NewRange 40 49"])
         (simp add: range_values NewRange_def word_le_def)
  next
    case 6
    then show ?thesis
      by (intro exI [of _ "''paxos''"] exI [of _ "NewRange 50 59"])
         (simp add: range_values NewRange_def word_le_def)
  next
    case 7
    then show ?thesis
      by (intro exI [of _ "''paxos1''"] exI [of _ "NewRange 60 69"])
         (simp add: range_values NewRange_def word_le_def)
  next
    case 8
    then show ?thesis
      by (intro exI [of _ "''paxos2''"] exI [of _ "NewRange 70 79"])
         (simp add: range_values NewRange_def word_le_def)
  next
    case 9
    then show ?thesis
      by (intro exI [of _ "''paxos3''"] exI [of _ "NewRange 80 89"])
         (simp add: range_values NewRange_def word_le_def)
  next
    case 10
    then show ?thesis
      by (intro exI [of _ "''hydra''"] exI [of _ "NewRange 90 99"])
         (simp add: range_values NewRange_def word_le_def)
  next
    case 11
    then show ?thesis
      by (intro exI [of _ "''hydra1''"] exI [of _ "NewRange 100 109"])
         (simp add: range_values NewRange_def word_le_def)
  next
    case 12
    then show ?thesis
      by (intro exI [of _ "''hydra2''"] exI [of _ "NewRange 110 119"])
         (simp add: range_values NewRange_def word_le_def)
  next
    case 13
    then show ?thesis
      by (intro exI [of _ "''hydra3''"] exI [of _ "NewRange 120 129"])
         (simp add: range_values NewRange_def word_le_def)
  next
    case 14
    with assms show ?thesis by simp
  qed
qed

lemma Address_Location_None_iff:
  "Address_Location nl a = Inr None \<longleftrightarrow> 130 \<le> uint (a ! 0)"
proof
  assume none: "Address_Location nl a = Inr None"
  have "0 \<le> uint (a ! 0)" by simp
  then show "130 \<le> uint (a ! 0)"
    using none
    by (cases rule: first_byte_cases) (simp_all add: Address_Location_ranges)
next
  assume "130 \<le> uint (a ! 0)"
  then show "Address_Location nl a = Inr None"
    by (rule Address_Location_ranges(14))
qed

text \<open>
  Claim C10. \<open>Address.Location()\<close> returns the top location for every address whose first
  byte is at most 9, the region location \<open>[0]\<close>, \<open>[1]\<close> or \<open>[2]\<close> for a first byte in
  the range registered for cyprus (10 to 19), paxos (50 to 59) or hydra (90 to 99), and
  \<open>nil\<close> exactly when the first byte is 130 or more. The registered ranges cover the
  first bytes 0 to 129 and no others, and no first byte lies in the ranges of two names.
\<close>

theorem Address_Location_by_first_byte:
  assumes "length a = AddressLength"
  shows
    "(uint (a ! 0) \<le> 9 \<longrightarrow> Address_Location nl a = Inr (Some [])) \<and>
     Name [0] = Inr ''cyprus'' \<and> locationToPrefixRange ''cyprus'' = Some (NewRange 10 19) \<and>
     (10 \<le> uint (a ! 0) \<and> uint (a ! 0) \<le> 19 \<longrightarrow> Address_Location nl a = Inr (Some [0])) \<and>
     Name [1] = Inr ''paxos'' \<and> locationToPrefixRange ''paxos'' = Some (NewRange 50 59) \<and>
     (50 \<le> uint (a ! 0) \<and> uint (a ! 0) \<le> 59 \<longrightarrow> Address_Location nl a = Inr (Some [1])) \<and>
     Name [2] = Inr ''hydra'' \<and> locationToPrefixRange ''hydra'' = Some (NewRange 90 99) \<and>
     (90 \<le> uint (a ! 0) \<and> uint (a ! 0) \<le> 99 \<longrightarrow> Address_Location nl a = Inr (Some [2])) \<and>
     (Address_Location nl a = Inr None \<longleftrightarrow> 130 \<le> uint (a ! 0)) \<and>
     ((\<exists>nm r. locationToPrefixRange nm = Some r \<and> lo r \<le> a ! 0 \<and> a ! 0 \<le> hi r)
        \<longleftrightarrow> uint (a ! 0) \<le> 129) \<and>
     (\<forall>nm r nm' r'.
        locationToPrefixRange nm = Some r \<and> lo r \<le> a ! 0 \<and> a ! 0 \<le> hi r \<and>
        locationToPrefixRange nm' = Some r' \<and> lo r' \<le> a ! 0 \<and> a ! 0 \<le> hi r'
        \<longrightarrow> nm = nm')"
proof -
  have cover: "(\<exists>nm r. locationToPrefixRange nm = Some r \<and> lo r \<le> a ! 0 \<and> a ! 0 \<le> hi r)
        \<longleftrightarrow> uint (a ! 0) \<le> 129"
  proof
    assume "\<exists>nm r. locationToPrefixRange nm = Some r \<and> lo r \<le> a ! 0 \<and> a ! 0 \<le> hi r"
    then obtain nm r where "locationToPrefixRange nm = Some r" "lo r \<le> a ! 0" "a ! 0 \<le> hi r"
      by blast
    from table_entries [OF this] show "uint (a ! 0) \<le> 129" by linarith
  next
    assume "uint (a ! 0) \<le> 129"
    then show "\<exists>nm r. locationToPrefixRange nm = Some r \<and> lo r \<le> a ! 0 \<and> a ! 0 \<le> hi r"
      by (rule table_cover)
  qed
  have disjoint: "\<forall>nm r nm' r'.
        locationToPrefixRange nm = Some r \<and> lo r \<le> a ! 0 \<and> a ! 0 \<le> hi r \<and>
        locationToPrefixRange nm' = Some r' \<and> lo r' \<le> a ! 0 \<and> a ! 0 \<le> hi r'
        \<longrightarrow> nm = nm'"
    using table_disjoint by blast
  show ?thesis
    using cover disjoint Address_Location_None_iff [of nl a]
    by (simp add: Name_values range_values Address_Location_ranges)
qed

theorem Address_Location_by_first_byte_witness:
  "length (95 # replicate 19 (0 :: 8 word)) = AddressLength \<and>
   90 \<le> uint ((95 # replicate 19 (0 :: 8 word)) ! 0) \<and>
   uint ((95 # replicate 19 (0 :: 8 word)) ! 0) \<le> 99 \<and>
   Address_Location [0, 0] (95 # replicate 19 0) = Inr (Some [2]) \<and>
   Address_Location [0, 0] (200 # replicate 19 0) = Inr None"
proof -
  have h: "length (95 # replicate 19 (0 :: 8 word)) = AddressLength"
    and h': "length (200 # replicate 19 (0 :: 8 word)) = AddressLength"
    by (simp_all add: AddressLength_def)
  show ?thesis
    using h Address_Location_by_first_byte [OF h, of "[0, 0]"]
      Address_Location_by_first_byte [OF h', of "[0, 0]"]
    by simp
qed

section \<open>Properties of the gas limit adjustment\<close>

lemma delta_unat:
  fixes parent bd :: "64 word"
  assumes "0 < bd" "bd \<le> parent"
  shows "unat (parent div bd - 1) = unat parent div unat bd - 1"
    and "1 \<le> unat parent div unat bd"
proof -
  have b: "0 < unat bd" using assms(1) by (simp add: word_less_nat_alt)
  have "unat bd \<le> unat parent" using assms(2) by (simp add: word_le_nat_alt)
  then have "unat bd div unat bd \<le> unat parent div unat bd" by (rule div_le_mono)
  then show q: "1 \<le> unat parent div unat bd" using b by simp
  have "unat (parent div bd) = unat parent div unat bd" by (rule unat_div)
  then have "1 \<le> parent div bd" using q by (simp add: word_le_nat_alt)
  then have "unat (parent div bd - 1) = unat (parent div bd) - unat (1 :: 64 word)"
    by (rule unat_sub)
  then show "unat (parent div bd - 1) = unat parent div unat bd - 1"
    by (simp add: unat_div)
qed

lemma down_unat:
  fixes parent bd :: "64 word"
  assumes "0 < bd" "bd \<le> parent"
  shows "unat (parent - (parent div bd - 1)) = unat parent - (unat parent div unat bd - 1)"
proof -
  have "unat parent div unat bd \<le> unat parent" by (rule div_le_dividend)
  then have "unat (parent div bd - 1) \<le> unat parent"
    using delta_unat(1) [OF assms] by linarith
  then have "parent div bd - 1 \<le> parent" by (simp add: word_le_nat_alt)
  then have "unat (parent - (parent div bd - 1)) = unat parent - unat (parent div bd - 1)"
    by (rule unat_sub)
  then show ?thesis using delta_unat [OF assms] by simp
qed

lemma up_unat:
  fixes parent bd :: "64 word"
  assumes "0 < bd" "bd \<le> parent"
    and "unat parent + unat parent div unat bd \<le> 2 ^ 64"
  shows "unat (parent + (parent div bd - 1)) = unat parent + (unat parent div unat bd - 1)"
proof -
  have "unat parent + unat (parent div bd - 1) < 2 ^ LENGTH(64)"
    using delta_unat [OF assms(1,2)] assms(3) by simp
  then have "unat (parent + (parent div bd - 1)) = unat parent + unat (parent div bd - 1)"
    by (rule iffD1 [OF unat_add_lem])
  then show ?thesis using delta_unat [OF assms(1,2)] by simp
qed

text \<open>
  Claim C2, as amended. With \<open>target\<close> the desired limit raised to \<open>MinGasLimit\<close>:
  \<open>CalcGasLimit\<close> returns the parent limit when the parent limit is the target. When the
  parent limit is at least \<open>GasLimitBoundDivisor\<close> and adding its
  \<open>GasLimitBoundDivisor\<close>-th part to it stays within 64 bits, the result lies between
  the parent limit and the target (it moves towards the target and does not pass it),
  differs from the parent limit by at most \<open>parent div GasLimitBoundDivisor - 1\<close>, and is
  at least \<open>MinGasLimit\<close> whenever the parent limit is.
\<close>

theorem CalcGasLimit_bounded_step:
  "(parent = max desired (MinGasLimit p) \<longrightarrow> CalcGasLimit p parent desired = parent) \<and>
   (0 < GasLimitBoundDivisor p \<and> GasLimitBoundDivisor p \<le> parent \<and>
    unat parent + unat parent div unat (GasLimitBoundDivisor p) \<le> 2 ^ 64 \<longrightarrow>
      (parent < max desired (MinGasLimit p) \<longrightarrow>
         parent \<le> CalcGasLimit p parent desired \<and>
         CalcGasLimit p parent desired \<le> max desired (MinGasLimit p)) \<and>
      (max desired (MinGasLimit p) < parent \<longrightarrow>
         max desired (MinGasLimit p) \<le> CalcGasLimit p parent desired \<and>
         CalcGasLimit p parent desired \<le> parent) \<and>
      unat (CalcGasLimit p parent desired)
         \<le> unat parent + (unat parent div unat (GasLimitBoundDivisor p) - 1) \<and>
      unat parent - (unat parent div unat (GasLimitBoundDivisor p) - 1)
         \<le> unat (CalcGasLimit p parent desired) \<and>
      (MinGasLimit p \<le> parent \<longrightarrow> MinGasLimit p \<le> CalcGasLimit p parent desired))"
proof -
  define bd where "bd = GasLimitBoundDivisor p"
  define target where "target = max desired (MinGasLimit p)"
  have tgt: "(if desired < MinGasLimit p then MinGasLimit p else desired) = target"
    by (auto simp: target_def max_def)
  have fixed: "parent = target \<longrightarrow> CalcGasLimit p parent desired = parent"
    by (simp add: CalcGasLimit_def Let_def tgt)
  have step: "(parent < target \<longrightarrow>
         parent \<le> CalcGasLimit p parent desired \<and> CalcGasLimit p parent desired \<le> target) \<and>
      (target < parent \<longrightarrow>
         target \<le> CalcGasLimit p parent desired \<and> CalcGasLimit p parent desired \<le> parent) \<and>
      unat (CalcGasLimit p parent desired) \<le> unat parent + (unat parent div unat bd - 1) \<and>
      unat parent - (unat parent div unat bd - 1) \<le> unat (CalcGasLimit p parent desired) \<and>
      (MinGasLimit p \<le> parent \<longrightarrow> MinGasLimit p \<le> CalcGasLimit p parent desired)"
    if h: "0 < bd" "bd \<le> parent" "unat parent + unat parent div unat bd \<le> 2 ^ 64"
  proof -
    note up = up_unat [OF h]
    note down = down_unat [OF h(1,2)]
    have m: "MinGasLimit p \<le> target" by (simp add: target_def)
    consider (lt) "parent < target" | (gt) "target < parent" | (eq) "parent = target"
      by (metis linorder_neqE_linordered_idom not_less_iff_gr_or_eq linorder_less_linear)
    then show ?thesis
    proof cases
      case lt
      have c: "CalcGasLimit p parent desired =
          (if target < parent + (parent div bd - 1) then target else parent + (parent div bd - 1))"
        using lt by (simp add: CalcGasLimit_def Let_def tgt bd_def)
      show ?thesis
        using lt up m unfolding c
        by (auto simp: word_less_nat_alt word_le_nat_alt)
    next
      case gt
      have ngt: "\<not> parent < target" using gt by simp
      have c: "CalcGasLimit p parent desired =
          (if parent - (parent div bd - 1) < target then target else parent - (parent div bd - 1))"
        using gt ngt by (simp add: CalcGasLimit_def Let_def tgt bd_def)
      show ?thesis
        using gt down m unfolding c
        by (auto simp: word_less_nat_alt word_le_nat_alt)
    next
      case eq
      then have "CalcGasLimit p parent desired = parent" using fixed by simp
      then show ?thesis using eq m by simp
    qed
  qed
  show ?thesis
    using fixed step unfolding bd_def target_def by blast
qed


theorem CalcGasLimit_bounded_step_witness:
  "0 < GasLimitBoundDivisor \<lparr>GasLimitBoundDivisor = 1024, MinGasLimit = 5000\<rparr> \<and>
   GasLimitBoundDivisor \<lparr>GasLimitBoundDivisor = 1024, MinGasLimit = 5000\<rparr> \<le> 1000000 \<and>
   unat (1000000 :: 64 word) + unat (1000000 :: 64 word) div unat (1024 :: 64 word) \<le> 2 ^ 64 \<and>
   (1000000 :: 64 word) < max 2000000 5000 \<and>
   CalcGasLimit \<lparr>GasLimitBoundDivisor = 1024, MinGasLimit = 5000\<rparr> 1000000 2000000 = 1000975 \<and>
   CalcGasLimit \<lparr>GasLimitBoundDivisor = 1024, MinGasLimit = 5000\<rparr> 2000000 2000000 = 2000000"
  using CalcGasLimit_bounded_step
      [of 1000000 2000000 "\<lparr>GasLimitBoundDivisor = 1024, MinGasLimit = 5000\<rparr>"]
    CalcGasLimit_bounded_step
      [of 2000000 2000000 "\<lparr>GasLimitBoundDivisor = 1024, MinGasLimit = 5000\<rparr>"]
  by (simp add: CalcGasLimit_def)

text \<open>
  Claim C2 as stated fails, with divisor 1024 and minimum 5000: parent and desired limit
  both 4096 give 4099, not 4096, since the desired limit is first raised to the minimum;
  and parent 2048 with desired limit 10000 gives 2049, below the minimum, since one step
  from a parent below the minimum does not reach it.
\<close>

theorem CalcGasLimit_counterexample:
  "CalcGasLimit \<lparr>GasLimitBoundDivisor = 1024, MinGasLimit = 5000\<rparr> 4096 4096 = 4099 \<and>
   CalcGasLimit \<lparr>GasLimitBoundDivisor = 1024, MinGasLimit = 5000\<rparr> 4096 4096 \<noteq> 4096 \<and>
   MinGasLimit \<lparr>GasLimitBoundDivisor = 1024, MinGasLimit = 5000\<rparr> \<le> 10000 \<and>
   CalcGasLimit \<lparr>GasLimitBoundDivisor = 1024, MinGasLimit = 5000\<rparr> 2048 10000 = 2049 \<and>
   CalcGasLimit \<lparr>GasLimitBoundDivisor = 1024, MinGasLimit = 5000\<rparr> 2048 10000
     < MinGasLimit \<lparr>GasLimitBoundDivisor = 1024, MinGasLimit = 5000\<rparr>"
  by (simp add: CalcGasLimit_def)

text \<open>
  A parent limit below the divisor makes \<open>delta\<close> wrap to \<open>2 ^ 64 - 1\<close>: the step
  goes one down although the target is above.
\<close>

lemma CalcGasLimit_small_parent:
  "CalcGasLimit \<lparr>GasLimitBoundDivisor = 1024, MinGasLimit = 5000\<rparr> 1000 5000 = 999"
  by (simp add: CalcGasLimit_def)

section \<open>Properties of block validation\<close>

lemma ex_env_Context: "Context (NodeLocation ex_env) = Inr REGION_CTX"
  by (simp add: ex_env_def Context_def AssertValid_def HasRegion_def HasZone_def Region_def
      Zone_def NumRegionsInPrime_def NumZonesInRegion_def)

lemma ValidateBody_unfold:
  assumes "Context (NodeLocation v) = Inr nodeCtx"
  shows "ValidateBody v block = Inr
     (if HasBlockAndState v (Hash block) (NumberU64 block) then Some ErrKnownBlock
      else case VerifyUncles v block of
        Some err \<Rightarrow> Some (Propagated err)
      | None \<Rightarrow>
          if CalcUncleHash v (Uncles block) \<noteq> UncleHash (Header block)
            then Some (UncleRootHashMismatch
                         (CalcUncleHash v (Uncles block)) (UncleHash (Header block)))
          else if DeriveSha_Transactions v (Transactions block) \<noteq> TxHash (Header block)
            then Some (TransactionRootHashMismatch
                         (DeriveSha_Transactions v (Transactions block)) (TxHash (Header block)))
          else if DeriveSha_Transactions v (ExtTransactions block) \<noteq> EtxHash (Header block)
            then Some (ExternalTransactionRootHashMismatch
                         (DeriveSha_Transactions v (ExtTransactions block))
                         (EtxHash (Header block)))
          else if nodeCtx < ZONE_CTX \<and>
                  (DeriveSha_BlockManifest v (SubManifest block) = EmptyRootHash v \<or>
                   DeriveSha_BlockManifest v (SubManifest block)
                     \<noteq> ManifestHash (Header block) (nodeCtx + 1))
            then Some ErrBadSubManifest
          else if \<not> HasBlockAndState v (ParentHash block) (NumberU64 block - 1)
            then (if \<not> HasBlock v (ParentHash block) (NumberU64 block - 1)
                    then Some ErrUnknownAncestor
                  else Some ErrPrunedAncestor)
          else None)"
  by (simp only: ValidateBody_def Let_def assms sum.case)

text \<open>
  Claim C3, as amended. With a valid node location of context \<open>nodeCtx\<close>:
  \<open>ValidateBody\<close> returns \<open>ErrBadSubManifest\<close> exactly when the node is above zone
  level, all earlier checks pass (the block is not known, the engine accepts the uncles,
  the uncle, transaction and external transaction roots match), and the root of the
  body's sub-manifest is the empty root or differs from the header's manifest root for
  context \<open>nodeCtx + 1\<close>. A zone node never gets \<open>ErrBadSubManifest\<close>. A block whose
  header slot is the empty root is never accepted by a node above zone level.
\<close>

theorem ValidateBody_BadSubManifest:
  assumes "Context (NodeLocation v) = Inr nodeCtx"
  shows
    "(ValidateBody v block = Inr (Some ErrBadSubManifest) \<longleftrightarrow>
        nodeCtx < ZONE_CTX \<and>
        \<not> HasBlockAndState v (Hash block) (NumberU64 block) \<and>
        VerifyUncles v block = None \<and>
        CalcUncleHash v (Uncles block) = UncleHash (Header block) \<and>
        DeriveSha_Transactions v (Transactions block) = TxHash (Header block) \<and>
        DeriveSha_Transactions v (ExtTransactions block) = EtxHash (Header block) \<and>
        (DeriveSha_BlockManifest v (SubManifest block) = EmptyRootHash v \<or>
         DeriveSha_BlockManifest v (SubManifest block)
           \<noteq> ManifestHash (Header block) (nodeCtx + 1))) \<and>
     (nodeCtx = ZONE_CTX \<longrightarrow> ValidateBody v block \<noteq> Inr (Some ErrBadSubManifest)) \<and>
     (nodeCtx < ZONE_CTX \<and> ManifestHash (Header block) (nodeCtx + 1) = EmptyRootHash v
        \<longrightarrow> ValidateBody v block \<noteq> Inr None)"
  unfolding ValidateBody_unfold [OF assms]
  by (auto split: option.splits)

theorem ValidateBody_BadSubManifest_witness:
  "Context (NodeLocation ex_env) = Inr REGION_CTX \<and> REGION_CTX < ZONE_CTX \<and>
   ManifestHash (Header (ex_block\<lparr>Header := ex_header\<lparr>ManifestHash := (\<lambda>ctx. [])\<rparr>\<rparr>))
     (REGION_CTX + 1) = EmptyRootHash ex_env \<and>
   ValidateBody ex_env (ex_block\<lparr>Header := ex_header\<lparr>ManifestHash := (\<lambda>ctx. [])\<rparr>\<rparr>)
     = Inr (Some ErrBadSubManifest) \<and>
   ValidateBody ex_env ex_block = Inr None"
proof -
  note c = ex_env_Context
  have ok: "ValidateBody ex_env ex_block = Inr None"
    unfolding ValidateBody_unfold [OF c]
    by (simp add: ex_env_def ex_block_def ex_header_def REGION_CTX_def ZONE_CTX_def)
  show ?thesis
    using c ok
      ValidateBody_BadSubManifest [OF c,
        of "ex_block\<lparr>Header := ex_header\<lparr>ManifestHash := (\<lambda>ctx. [])\<rparr>\<rparr>"]
    by (simp add: ex_env_def ex_block_def ex_header_def REGION_CTX_def ZONE_CTX_def)
qed

text \<open>
  Claim C3 as stated fails: on a region node, a block that is already known and whose
  sub-manifest is empty gets \<open>ErrKnownBlock\<close>, not \<open>ErrBadSubManifest\<close>.
\<close>

theorem ValidateBody_BadSubManifest_counterexample:
  "Context (NodeLocation ex_env) = Inr REGION_CTX \<and> REGION_CTX < ZONE_CTX \<and>
   DeriveSha_BlockManifest ex_env (SubManifest (ex_block\<lparr>Hash := [9], SubManifest := []\<rparr>))
     = EmptyRootHash ex_env \<and>
   DeriveSha_BlockManifest ex_env (SubManifest (ex_block\<lparr>Hash := [9], SubManifest := []\<rparr>))
     \<noteq> ManifestHash (Header (ex_block\<lparr>Hash := [9], SubManifest := []\<rparr>)) (REGION_CTX + 1) \<and>
   ValidateBody ex_env (ex_block\<lparr>Hash := [9], SubManifest := []\<rparr>) = Inr (Some ErrKnownBlock) \<and>
   ValidateBody ex_env (ex_block\<lparr>Hash := [9], SubManifest := []\<rparr>)
     \<noteq> Inr (Some ErrBadSubManifest)"
proof -
  note c = ex_env_Context
  show ?thesis
    unfolding ValidateBody_unfold [OF c]
    using c by (simp add: ex_env_def ex_block_def ex_header_def REGION_CTX_def ZONE_CTX_def)
qed


text \<open>
  Claim C4. With a valid node location: \<open>ValidateBody\<close> returns \<open>ErrKnownBlock\<close> exactly
  when the oracle has the block with its state, whatever the other checks would say.
  When the last check is reached and the parent (parent hash, number minus one) is not
  there with its state, the result is \<open>ErrUnknownAncestor\<close> if the parent header is
  unknown and \<open>ErrPrunedAncestor\<close> otherwise; and these two errors come from nowhere
  else, so the checks before them, the root checks among them, have passed.
\<close>

theorem ValidateBody_known_and_ancestor:
  assumes "Context (NodeLocation v) = Inr nodeCtx"
  shows
    "(ValidateBody v block = Inr (Some ErrKnownBlock) \<longleftrightarrow>
        HasBlockAndState v (Hash block) (NumberU64 block)) \<and>
     (ancestor_check_reached v block nodeCtx \<and>
      \<not> HasBlockAndState v (ParentHash block) (NumberU64 block - 1) \<longrightarrow>
        ValidateBody v block =
          Inr (Some (if \<not> HasBlock v (ParentHash block) (NumberU64 block - 1)
                     then ErrUnknownAncestor else ErrPrunedAncestor))) \<and>
     (ValidateBody v block = Inr (Some ErrUnknownAncestor) \<longleftrightarrow>
        ancestor_check_reached v block nodeCtx \<and>
        \<not> HasBlockAndState v (ParentHash block) (NumberU64 block - 1) \<and>
        \<not> HasBlock v (ParentHash block) (NumberU64 block - 1)) \<and>
     (ValidateBody v block = Inr (Some ErrPrunedAncestor) \<longleftrightarrow>
        ancestor_check_reached v block nodeCtx \<and>
        \<not> HasBlockAndState v (ParentHash block) (NumberU64 block - 1) \<and>
        HasBlock v (ParentHash block) (NumberU64 block - 1))"
  unfolding ValidateBody_unfold [OF assms]
  by (auto split: option.splits)

theorem ValidateBody_known_and_ancestor_witness:
  "Context (NodeLocation ex_env) = Inr REGION_CTX \<and>
   HasBlockAndState ex_env (Hash (ex_block\<lparr>Hash := [9]\<rparr>)) (NumberU64 (ex_block\<lparr>Hash := [9]\<rparr>)) \<and>
   ValidateBody ex_env (ex_block\<lparr>Hash := [9]\<rparr>) = Inr (Some ErrKnownBlock) \<and>
   ancestor_check_reached ex_env (ex_block\<lparr>ParentHash := [8]\<rparr>) REGION_CTX \<and>
   HasBlock ex_env [8] 9 \<and>
   ValidateBody ex_env (ex_block\<lparr>ParentHash := [8]\<rparr>) = Inr (Some ErrPrunedAncestor) \<and>
   ValidateBody ex_env (ex_block\<lparr>ParentHash := [1]\<rparr>) = Inr (Some ErrUnknownAncestor)"
proof -
  note c = ex_env_Context
  show ?thesis
    using c
      ValidateBody_known_and_ancestor [OF c, of "ex_block\<lparr>Hash := [9]\<rparr>"]
      ValidateBody_known_and_ancestor [OF c, of "ex_block\<lparr>ParentHash := [8]\<rparr>"]
      ValidateBody_known_and_ancestor [OF c, of "ex_block\<lparr>ParentHash := [1]\<rparr>"]
    by (simp add: ex_env_def ex_block_def ex_header_def REGION_CTX_def ZONE_CTX_def)
qed

lemma append_etxs_eq: "append_etxs emittedEtxs etxs = emittedEtxs @ etxs"
  by (induction etxs arbitrary: emittedEtxs) simp_all

lemma collect_etxs_eq:
  "collect_etxs successful emittedEtxs receipts =
     emittedEtxs @ concat (map Etxs (filter (\<lambda>r. Status r = successful) receipts))"
  by (induction receipts arbitrary: emittedEtxs) (simp_all add: append_etxs_eq)

lemma ValidateState_unfold:
  "ValidateState v block statedb receipts usedGas =
     (if GasUsed block \<noteq> usedGas then Some (InvalidGasUsed (GasUsed block) usedGas)
      else if CreateBloom v receipts \<noteq> Bloom (Header block)
        then Some (InvalidBloom (Bloom (Header block)) (CreateBloom v receipts))
      else if DeriveSha_Receipts v receipts \<noteq> ReceiptHash (Header block)
        then Some (InvalidReceiptRootHash (ReceiptHash (Header block))
                     (DeriveSha_Receipts v receipts))
      else if Root (Header block)
                \<noteq> fst (IntermediateRoot v statedb (IsEIP158 v (Number (Header block)))) \<or>
              snd (IntermediateRoot v statedb (IsEIP158 v (Number (Header block)))) \<noteq> None
        then (case snd (IntermediateRoot v statedb (IsEIP158 v (Number (Header block)))) of
                Some e \<Rightarrow> Some (Propagated e)
              | None \<Rightarrow> Some (InvalidMerkleRoot (Root (Header block))
                  (fst (IntermediateRoot v statedb (IsEIP158 v (Number (Header block)))))))
      else if DeriveSha_Transactions v
                (collect_etxs (ReceiptStatusSuccessful v) [] receipts) \<noteq> EtxHash (Header block)
        then Some (InvalidEtxHash (EtxHash (Header block))
                     (DeriveSha_Transactions v
                        (collect_etxs (ReceiptStatusSuccessful v) [] receipts)))
      else if snd (CollectEtxRollup v block) \<noteq> None then Some UnableToGetEtxRollup
      else if DeriveSha_Transactions v (fst (CollectEtxRollup v block))
                \<noteq> EtxRollupHash (Header block)
        then Some (InvalidEtxRollupHash (EtxRollupHash (Header block))
                     (DeriveSha_Transactions v (fst (CollectEtxRollup v block))))
      else None)"
  by (simp only: ValidateState_def Let_def case_prod_beta)

lemma ValidateState_etx_reached: "(\<exists>remote local. ValidateState v block statedb receipts usedGas
                          = Some (InvalidEtxHash remote local)) \<longleftrightarrow>
       DeriveSha_Transactions v
         (concat (map Etxs (filter (\<lambda>r. Status r = ReceiptStatusSuccessful v) receipts)))
         \<noteq> EtxHash (Header block)"
    if "GasUsed block = usedGas" "CreateBloom v receipts = Bloom (Header block)"
      "DeriveSha_Receipts v receipts = ReceiptHash (Header block)"
      "IntermediateRoot v statedb (IsEIP158 v (Number (Header block)))
         = (Root (Header block), None)"
    unfolding ValidateState_unfold using that
    by (simp add: collect_etxs_eq)


lemma ValidateState_etx_only: "remote = EtxHash (Header block) \<and>
        local = DeriveSha_Transactions v
          (concat (map Etxs (filter (\<lambda>r. Status r = ReceiptStatusSuccessful v) receipts))) \<and>
        local \<noteq> remote"
    if "ValidateState v block statedb receipts usedGas = Some (InvalidEtxHash remote local)"
    using that unfolding ValidateState_unfold
    by (simp add: collect_etxs_eq split: if_splits option.splits)


lemma ValidateBody_etx_only: "want = EtxHash (Header block) \<and>
        have = DeriveSha_Transactions v (ExtTransactions block) \<and> have \<noteq> want"
    if r: "ValidateBody v block = Inr (Some (ExternalTransactionRootHashMismatch have want))"
    for "have" want
  proof (cases "Context (NodeLocation v)")
    case (Inl f)
    with r show ?thesis by (simp add: ValidateBody_def)
  next
    case (Inr nodeCtx)
    from r show ?thesis
      unfolding ValidateBody_unfold [OF Inr]
      by (simp split: option.splits if_splits)
  qed

text \<open>
  Claim C5, as amended. \<open>ValidateState\<close> collects, in receipt order, exactly the external
  transactions of the receipts whose status is \<open>ReceiptStatusSuccessful\<close>. When the four
  earlier checks pass (gas used, bloom, receipt root, state root computed without error
  and equal), it returns the \<open>invalid etx hash\<close> error exactly when the root of that list
  differs from the header's \<open>EtxHash\<close>; it returns that error in no other case, and the
  error carries the header's \<open>EtxHash\<close> and the recomputed root. \<open>ValidateBody\<close> compares
  the root of the body's external transactions with the same header field.
\<close>

theorem ValidateState_emitted_etxs:
  "collect_etxs (ReceiptStatusSuccessful v) [] receipts =
     concat (map Etxs (filter (\<lambda>r. Status r = ReceiptStatusSuccessful v) receipts)) \<and>
   (GasUsed block = usedGas \<and>
    CreateBloom v receipts = Bloom (Header block) \<and>
    DeriveSha_Receipts v receipts = ReceiptHash (Header block) \<and>
    IntermediateRoot v statedb (IsEIP158 v (Number (Header block))) = (Root (Header block), None)
    \<longrightarrow>
      ((\<exists>remote local. ValidateState v block statedb receipts usedGas
                          = Some (InvalidEtxHash remote local)) \<longleftrightarrow>
       DeriveSha_Transactions v
         (concat (map Etxs (filter (\<lambda>r. Status r = ReceiptStatusSuccessful v) receipts)))
         \<noteq> EtxHash (Header block))) \<and>
   (\<forall>remote local.
      ValidateState v block statedb receipts usedGas = Some (InvalidEtxHash remote local) \<longrightarrow>
        remote = EtxHash (Header block) \<and>
        local = DeriveSha_Transactions v
          (concat (map Etxs (filter (\<lambda>r. Status r = ReceiptStatusSuccessful v) receipts))) \<and>
        local \<noteq> remote) \<and>
   (\<forall>have want.
      ValidateBody v block = Inr (Some (ExternalTransactionRootHashMismatch have want)) \<longrightarrow>
        want = EtxHash (Header block) \<and>
        have = DeriveSha_Transactions v (ExtTransactions block) \<and> have \<noteq> want)"
proof (intro conjI allI impI)
  show "collect_etxs (ReceiptStatusSuccessful v) [] receipts =
     concat (map Etxs (filter (\<lambda>r. Status r = ReceiptStatusSuccessful v) receipts))"
    by (simp add: collect_etxs_eq)
next
  assume "GasUsed block = usedGas \<and>
    CreateBloom v receipts = Bloom (Header block) \<and>
    DeriveSha_Receipts v receipts = ReceiptHash (Header block) \<and>
    IntermediateRoot v statedb (IsEIP158 v (Number (Header block))) = (Root (Header block), None)"
  then have "GasUsed block = usedGas" "CreateBloom v receipts = Bloom (Header block)"
    "DeriveSha_Receipts v receipts = ReceiptHash (Header block)"
    "IntermediateRoot v statedb (IsEIP158 v (Number (Header block))) = (Root (Header block), None)"
    by simp_all
  then show "(\<exists>remote local. ValidateState v block statedb receipts usedGas
                          = Some (InvalidEtxHash remote local)) \<longleftrightarrow>
       DeriveSha_Transactions v
         (concat (map Etxs (filter (\<lambda>r. Status r = ReceiptStatusSuccessful v) receipts)))
         \<noteq> EtxHash (Header block)"
    by (rule ValidateState_etx_reached)
next
  fix remote local
  assume r: "ValidateState v block statedb receipts usedGas = Some (InvalidEtxHash remote local)"
  from ValidateState_etx_only [OF r]
  show "remote = EtxHash (Header block)"
    and "local = DeriveSha_Transactions v
          (concat (map Etxs (filter (\<lambda>r. Status r = ReceiptStatusSuccessful v) receipts)))"
    and "local \<noteq> remote"
    by auto
next
  fix "have" want
  assume r: "ValidateBody v block = Inr (Some (ExternalTransactionRootHashMismatch have want))"
  from ValidateBody_etx_only [OF r]
  show "want = EtxHash (Header block)"
    and "have = DeriveSha_Transactions v (ExtTransactions block)"
    and "have \<noteq> want"
    by auto
qed


lemma ex_fields:
  "GasUsed ex_block = 21000" "Header ex_block = ex_header"
  "Bloom ex_header = []" "ReceiptHash ex_header = [2]" "Root ex_header = [7]"
  "EtxHash ex_header = [3]" "EtxRollupHash ex_header = []" "Number ex_header = 10"
  "CreateBloom ex_env rs = []" "DeriveSha_Receipts ex_env rs = [of_nat (length rs)]"
  "DeriveSha_Transactions ex_env txs = map of_nat txs"
  "IntermediateRoot ex_env st b = ([7], None)" "IsEIP158 ex_env n = True"
  "CollectEtxRollup ex_env blk = ([], None)" "ReceiptStatusSuccessful ex_env = 1"
  by (simp_all add: ex_env_def ex_block_def ex_header_def)

lemma ex_ValidateState:
  "ValidateState ex_env ex_block () ex_receipts 21000 = None"
  "ValidateState ex_env ex_block ()
     [\<lparr>Status = 1, Etxs = [3]\<rparr>, \<lparr>Status = 1, Etxs = [4]\<rparr>] 21000
     = Some (InvalidEtxHash [3] [3, 4])"
  "ValidateState ex_env ex_block ()
     [\<lparr>Status = 1, Etxs = [3]\<rparr>, \<lparr>Status = 1, Etxs = [4]\<rparr>] 5
     = Some (InvalidGasUsed 21000 5)"
  by (simp_all add: ValidateState_unfold ex_fields ex_receipts_def)

theorem ValidateState_emitted_etxs_witness:
  "GasUsed ex_block = 21000 \<and> CreateBloom ex_env ex_receipts = Bloom (Header ex_block) \<and>
   DeriveSha_Receipts ex_env ex_receipts = ReceiptHash (Header ex_block) \<and>
   IntermediateRoot ex_env () (IsEIP158 ex_env (Number (Header ex_block)))
     = (Root (Header ex_block), None) \<and>
   collect_etxs (ReceiptStatusSuccessful ex_env) [] ex_receipts = [3] \<and>
   ValidateState ex_env ex_block () ex_receipts 21000 = None \<and>
   ValidateState ex_env ex_block ()
     [\<lparr>Status = 1, Etxs = [3]\<rparr>, \<lparr>Status = 1, Etxs = [4]\<rparr>] 21000
     = Some (InvalidEtxHash [3] [3, 4])"
proof -
  have pre: "GasUsed ex_block = 21000" "CreateBloom ex_env ex_receipts = Bloom (Header ex_block)"
    "DeriveSha_Receipts ex_env ex_receipts = ReceiptHash (Header ex_block)"
    "IntermediateRoot ex_env () (IsEIP158 ex_env (Number (Header ex_block)))
       = (Root (Header ex_block), None)"
    by (simp_all add: ex_fields ex_receipts_def)
  have c: "collect_etxs (ReceiptStatusSuccessful ex_env) [] ex_receipts = [3]"
    using ValidateState_emitted_etxs [of ex_env ex_receipts ex_block 21000 "()"]
    by (simp add: ex_fields ex_receipts_def)
  show ?thesis
    using pre c ex_ValidateState(1,2) by simp
qed

text \<open>
  Claim C5 as stated fails: when the gas used does not match, \<open>ValidateState\<close> returns the
  gas error although the root of the emitted transactions differs from the header's.
\<close>

theorem ValidateState_etx_counterexample:
  "DeriveSha_Transactions ex_env
     (collect_etxs (ReceiptStatusSuccessful ex_env) []
        [\<lparr>Status = 1, Etxs = [3]\<rparr>, \<lparr>Status = 1, Etxs = [4]\<rparr>])
     \<noteq> EtxHash (Header ex_block) \<and>
   ValidateState ex_env ex_block ()
     [\<lparr>Status = 1, Etxs = [3]\<rparr>, \<lparr>Status = 1, Etxs = [4]\<rparr>] 5
     = Some (InvalidGasUsed 21000 5)"
  using ex_ValidateState(3)
  by (simp add: ex_fields)

end
